theory Spec2Isabelle
  imports Main "HOL-Library.Word" "HOL-Library.Sublist"
begin

section \<open>Strings\<close>

text \<open>
  A JavaScript string is a sequence of 16-bit code units. String literals of the source
  are written \<open>js ''...''\<close>: every character of an ASCII literal is one code unit.
\<close>

type_synonym cu = "16 word"
type_synonym jsstring = "cu list"

definition js :: "string \<Rightarrow> jsstring" where
  "js s = map (\<lambda>c. of_nat (of_char c)) s"

text \<open>
  Single code units are written as numbers. Those that occur below:
  \<^item> \<open>0x08\<close> backspace, \<open>0x09\<close> tab, \<open>0x0A\<close> line feed, \<open>0x0C\<close> form feed,
    \<open>0x0D\<close> carriage return, \<open>0x20\<close> space;
  \<^item> \<open>0x22\<close> quotation mark, \<open>0x5C\<close> backslash, \<open>0x2F\<close> solidus, \<open>0x5F\<close> underscore;
  \<^item> \<open>0x7B\<close> and \<open>0x7D\<close> braces, \<open>0x5B\<close> and \<open>0x5D\<close> brackets, \<open>0x2C\<close> comma,
    \<open>0x3A\<close> colon;
  \<^item> \<open>0x30\<close> to \<open>0x39\<close> the digits, \<open>0x2D\<close> minus, \<open>0x2B\<close> plus, \<open>0x2E\<close> full stop,
    \<open>0x45\<close> and \<open>0x65\<close> the letters E and e;
  \<^item> \<open>0x41\<close> to \<open>0x46\<close> the letters A to F, \<open>0x61\<close> to \<open>0x66\<close> the letters a to f;
  \<^item> \<open>0x62\<close>, \<open>0x66\<close>, \<open>0x6E\<close>, \<open>0x72\<close>, \<open>0x74\<close>, \<open>0x75\<close> the letters b, f, n, r, t, u.
\<close>

section \<open>The option lists, the presets and the initial state\<close>

definition MOODS :: "jsstring list" where
  "MOODS = [js ''Calm'', js ''Cozy'', js ''Mysterious'', js ''Ethereal'', js ''Melancholy'',
            js ''Dreamy'']"

definition CAMERA_MOVEMENTS :: "jsstring list" where
  "CAMERA_MOVEMENTS = [js ''Static'', js ''Slow Pan'', js ''Slow Zoom In'', js ''Slow Zoom Out'',
                       js ''Dolly'', js ''Handheld'']"

definition CAMERA_ANGLES :: "jsstring list" where
  "CAMERA_ANGLES = [js ''Eye-level'', js ''Low Angle'', js ''High Angle'', js ''Dutch Angle'',
                    js ''Close-up'', js ''Wide Shot'']"

definition CAMERA_FOCUS :: "jsstring list" where
  "CAMERA_FOCUS = [js ''Soft Focus'', js ''Deep Focus'', js ''Rack Focus'',
                   js ''Shallow Depth of Field'']"

definition PRIMARY_SOUNDS :: "jsstring list" where
  "PRIMARY_SOUNDS = [js ''Rain'', js ''Fireplace'', js ''Wind'', js ''Ocean Waves'',
                     js ''Forest Ambience'', js ''Keyboard Typing'', js ''None'']"

definition SECONDARY_SOUNDS :: "jsstring list" where
  "SECONDARY_SOUNDS = [js ''Thunder'', js ''Birds Chirping'', js ''Pages Turning'',
                       js ''Whispering'', js ''Ticking Clock'', js ''Purring Cat'']"

definition SOUND_QUALITIES :: "jsstring list" where
  "SOUND_QUALITIES = [js ''High-Fidelity (Binaural)'', js ''Lo-fi'', js ''Muffled'', js ''Crisp'']"

definition VISUAL_EFFECTS :: "jsstring list" where
  "VISUAL_EFFECTS = [js ''Soft Glow'', js ''Fog'', js ''Muted Tones'', js ''Film Grain'',
                     js ''Lens Flare'', js ''Dust Particles'']"

text \<open>
  The form state and the settings of a preset are objects with the same property names. In
  the form state every property is present; a preset's settings hold any subset of them. One
  record serves both: \<open>'s\<close> is the type of a single-valued property and \<open>'l\<close> of a
  multi-valued one, a plain value in the form state and an optional one in settings
  (\<open>None\<close>: the settings object does not have the property).
\<close>

record ('s, 'l) Fields =
  idea :: 's
  moods :: 'l
  cameraMovement :: 's
  cameraAngle :: 's
  cameraFocus :: 's
  soundscapePrimary :: 's
  soundscapeSecondary :: 'l
  soundscapeQuality :: 's
  visualEffects :: 'l

type_synonym FormState = "(jsstring, jsstring list) Fields"
type_synonym Settings = "(jsstring option, jsstring list option) Fields"

record Preset =
  name :: jsstring
  settings :: Settings

definition PRESETS :: "Preset list" where
  "PRESETS = [
    \<lparr>name = js ''Forest Rain'',
     settings = \<lparr>idea = None,
       moods = Some [js ''Calm'', js ''Melancholy''],
       cameraMovement = Some (js ''Slow Zoom In''),
       cameraAngle = Some (js ''Low Angle''),
       cameraFocus = Some (js ''Soft Focus''),
       soundscapePrimary = Some (js ''Rain''),
       soundscapeSecondary = Some [js ''Thunder'', js ''Wind''],
       soundscapeQuality = Some (js ''High-Fidelity (Binaural)''),
       visualEffects = Some [js ''Fog'', js ''Muted Tones'']\<rparr>\<rparr>,
    \<lparr>name = js ''Cozy Fireplace'',
     settings = \<lparr>idea = None,
       moods = Some [js ''Cozy'', js ''Calm''],
       cameraMovement = Some (js ''Static''),
       cameraAngle = Some (js ''Eye-level''),
       cameraFocus = Some (js ''Shallow Depth of Field''),
       soundscapePrimary = Some (js ''Fireplace''),
       soundscapeSecondary = Some [js ''Ticking Clock'', js ''Purring Cat''],
       soundscapeQuality = Some (js ''High-Fidelity (Binaural)''),
       visualEffects = Some [js ''Soft Glow'', js ''Film Grain'']\<rparr>\<rparr>,
    \<lparr>name = js ''Late Night Study'',
     settings = \<lparr>idea = None,
       moods = Some [js ''Calm'', js ''Cozy''],
       cameraMovement = Some (js ''Slow Pan''),
       cameraAngle = Some (js ''High Angle''),
       cameraFocus = Some (js ''Rack Focus''),
       soundscapePrimary = Some (js ''Keyboard Typing''),
       soundscapeSecondary = Some [js ''Pages Turning'', js ''Whispering''],
       soundscapeQuality = Some (js ''Crisp''),
       visualEffects = Some [js ''Soft Glow'', js ''Dust Particles'']\<rparr>\<rparr>,
    \<lparr>name = js ''Ethereal Dream'',
     settings = \<lparr>idea = None,
       moods = Some [js ''Ethereal'', js ''Dreamy'', js ''Mysterious''],
       cameraMovement = Some (js ''Dolly''),
       cameraAngle = Some (js ''Wide Shot''),
       cameraFocus = Some (js ''Soft Focus''),
       soundscapePrimary = Some (js ''Wind''),
       soundscapeSecondary = Some [],
       soundscapeQuality = Some (js ''Muffled''),
       visualEffects = Some [js ''Soft Glow'', js ''Fog'', js ''Muted Tones'']\<rparr>\<rparr>]"

definition initialState :: FormState where
  "initialState = \<lparr>idea = [],
     moods = [],
     cameraMovement = CAMERA_MOVEMENTS ! 0,
     cameraAngle = CAMERA_ANGLES ! 0,
     cameraFocus = CAMERA_FOCUS ! 0,
     soundscapePrimary = PRIMARY_SOUNDS ! 0,
     soundscapeSecondary = [],
     soundscapeQuality = SOUND_QUALITIES ! 0,
     visualEffects = []\<rparr>"

section \<open>The state of the component\<close>

datatype ValidationStatus = Unchecked | Valid | Invalid

text \<open>
  What a handler does outside the component's state is recorded in a log: a text written to
  the clipboard, a file offered for download (its name and its content), a key stored in
  local storage.
\<close>

datatype Effect =
    ClipboardWrite jsstring
  | Download jsstring jsstring
  | LocalStorageSet jsstring jsstring

record App =
  formState :: FormState
  generatedJson :: "jsstring option"
  validationStatus :: ValidationStatus
  copyButtonText :: jsstring
  theme :: jsstring
  effects :: "Effect list"

text \<open>
  The state after the first render. \<open>None\<close> is \<open>null\<close>. The theme is
  \<open>localStorage.getItem('asmr-veo-theme') || 'dark'\<close>: the stored string, or
  \<open>'dark'\<close> when nothing or the empty string is stored.
\<close>

definition initialApp :: "jsstring option \<Rightarrow> App" where
  "initialApp stored = \<lparr>formState = initialState, generatedJson = None,
     validationStatus = Unchecked, copyButtonText = js ''Copy'',
     theme = (case stored of None \<Rightarrow> js ''dark'' | Some t \<Rightarrow> if t = [] then js ''dark'' else t),
     effects = []\<rparr>"

definition handleSetTheme :: "jsstring \<Rightarrow> App \<Rightarrow> App" where
  "handleSetTheme newTheme st =
     st\<lparr>theme := newTheme,
        effects := effects st @ [LocalStorageSet (js ''asmr-veo-theme'') newTheme]\<rparr>"

section \<open>Handlers of the form\<close>

text \<open>
  \<open>handleInputChange\<close> stores the value of the event's target under the target's name. The
  one control bound to it is the text input named \<open>idea\<close>.
\<close>

definition handleInputChange :: "jsstring \<Rightarrow> App \<Rightarrow> App" where
  "handleInputChange v st = st\<lparr>formState := (formState st)\<lparr>idea := v\<rparr>\<rparr>"

text \<open>The \<open>onChange\<close> handlers of the five select controls.\<close>

definition selectCameraMovement :: "jsstring \<Rightarrow> App \<Rightarrow> App" where
  "selectCameraMovement v st = st\<lparr>formState := (formState st)\<lparr>cameraMovement := v\<rparr>\<rparr>"

definition selectCameraAngle :: "jsstring \<Rightarrow> App \<Rightarrow> App" where
  "selectCameraAngle v st = st\<lparr>formState := (formState st)\<lparr>cameraAngle := v\<rparr>\<rparr>"

definition selectCameraFocus :: "jsstring \<Rightarrow> App \<Rightarrow> App" where
  "selectCameraFocus v st = st\<lparr>formState := (formState st)\<lparr>cameraFocus := v\<rparr>\<rparr>"

definition selectSoundscapePrimary :: "jsstring \<Rightarrow> App \<Rightarrow> App" where
  "selectSoundscapePrimary v st = st\<lparr>formState := (formState st)\<lparr>soundscapePrimary := v\<rparr>\<rparr>"

definition selectSoundscapeQuality :: "jsstring \<Rightarrow> App \<Rightarrow> App" where
  "selectSoundscapeQuality v st = st\<lparr>formState := (formState st)\<lparr>soundscapeQuality := v\<rparr>\<rparr>"

text \<open>
  \<open>toggleMultiSelect(item, field)\<close> is called with the three field names \<open>'moods'\<close>,
  \<open>'soundscapeSecondary'\<close> and \<open>'visualEffects'\<close>; \<open>prev[field]\<close> and
  \<open>{...prev, [field]: newSelection}\<close> read and write that property.
\<close>

datatype MultiField = Moods | SoundscapeSecondary | VisualEffects

fun getField :: "MultiField \<Rightarrow> FormState \<Rightarrow> jsstring list" where
  "getField Moods prev = moods prev"
| "getField SoundscapeSecondary prev = soundscapeSecondary prev"
| "getField VisualEffects prev = visualEffects prev"

fun setField :: "MultiField \<Rightarrow> jsstring list \<Rightarrow> FormState \<Rightarrow> FormState" where
  "setField Moods v prev = prev\<lparr>moods := v\<rparr>"
| "setField SoundscapeSecondary v prev = prev\<lparr>soundscapeSecondary := v\<rparr>"
| "setField VisualEffects v prev = prev\<lparr>visualEffects := v\<rparr>"

definition newSelection :: "jsstring \<Rightarrow> jsstring list \<Rightarrow> jsstring list" where
  "newSelection item currentSelection =
     (if item \<in> set currentSelection
      then filter (\<lambda>i. i \<noteq> item) currentSelection
      else currentSelection @ [item])"

definition toggleMultiSelect :: "jsstring \<Rightarrow> MultiField \<Rightarrow> App \<Rightarrow> App" where
  "toggleMultiSelect item field st =
     st\<lparr>formState :=
          setField field (newSelection item (getField field (formState st))) (formState st)\<rparr>"

text \<open>
  \<open>{...prev, ...preset.settings}\<close>: every property the settings have replaces the one of
  \<open>prev\<close>, every other property of \<open>prev\<close> is kept.
\<close>

fun spread :: "'a \<Rightarrow> 'a option \<Rightarrow> 'a" where
  "spread p None = p"
| "spread p (Some v) = v"

definition applySettings :: "FormState \<Rightarrow> Settings \<Rightarrow> FormState" where
  "applySettings prev s = \<lparr>idea = spread (idea prev) (idea s),
     moods = spread (moods prev) (moods s),
     cameraMovement = spread (cameraMovement prev) (cameraMovement s),
     cameraAngle = spread (cameraAngle prev) (cameraAngle s),
     cameraFocus = spread (cameraFocus prev) (cameraFocus s),
     soundscapePrimary = spread (soundscapePrimary prev) (soundscapePrimary s),
     soundscapeSecondary = spread (soundscapeSecondary prev) (soundscapeSecondary s),
     soundscapeQuality = spread (soundscapeQuality prev) (soundscapeQuality s),
     visualEffects = spread (visualEffects prev) (visualEffects s)\<rparr>"

definition handleApplyPreset :: "Preset \<Rightarrow> App \<Rightarrow> App" where
  "handleApplyPreset preset st = st\<lparr>formState := applySettings (formState st) (settings preset)\<rparr>"

definition handleReset :: "App \<Rightarrow> App" where
  "handleReset st = st\<lparr>formState := initialState, generatedJson := None,
     validationStatus := Unchecked\<rparr>"

section \<open>JSON values and \<open>JSON.stringify\<close>\<close>

text \<open>
  The values that \<open>JSON.parse\<close> returns and that \<open>JSON.stringify\<close> writes: \<open>null\<close>,
  booleans, numbers, strings, arrays, and objects as the list of their properties in the
  order of their creation. (ECMAScript enumerates the properties whose name is an array index
  before the others; this concerns only the order in which \<open>JSON.stringify\<close> writes the
  properties of such an object, and no property name of the component is an index.) The
  numeric value of a number token is not computed: \<open>JNumber\<close> keeps the token, and
  \<open>SerializeJSONProperty\<close> writes the token back. The component never builds a number
  and never looks at one.
\<close>

datatype jsval =
    JNull
  | JBool bool
  | JNumber jsstring
  | JString jsstring
  | JArray "jsval list"
  | JObject "(jsstring \<times> jsval) list"

text \<open>
  \<open>QuoteJSONString\<close> of ECMA-262: the seven short escapes, \<open>\uXXXX\<close> (lower-case
  hexadecimal digits) for the other control characters and for a surrogate that is not part
  of a pair, every other code unit as it is.
\<close>

definition hexDigit :: "nat \<Rightarrow> cu" where
  "hexDigit d = (if d < 10 then of_nat (48 + d) else of_nat (87 + d))"

definition UnicodeEscape :: "cu \<Rightarrow> jsstring" where
  "UnicodeEscape c =
     [0x5C, 0x75, hexDigit (unat c div 4096), hexDigit (unat c div 256 mod 16),
      hexDigit (unat c div 16 mod 16), hexDigit (unat c mod 16)]"

definition isLeadingSurrogate :: "cu \<Rightarrow> bool" where
  "isLeadingSurrogate c \<longleftrightarrow> 0xD800 \<le> c \<and> c \<le> 0xDBFF"

definition isTrailingSurrogate :: "cu \<Rightarrow> bool" where
  "isTrailingSurrogate c \<longleftrightarrow> 0xDC00 \<le> c \<and> c \<le> 0xDFFF"

definition quoteCodeUnit :: "cu \<Rightarrow> jsstring" where
  "quoteCodeUnit c =
     (if c = 0x08 then [0x5C, 0x62] \<comment> \<open>backspace\<close>
      else if c = 0x09 then [0x5C, 0x74] \<comment> \<open>tab\<close>
      else if c = 0x0A then [0x5C, 0x6E] \<comment> \<open>line feed\<close>
      else if c = 0x0C then [0x5C, 0x66] \<comment> \<open>form feed\<close>
      else if c = 0x0D then [0x5C, 0x72] \<comment> \<open>carriage return\<close>
      else if c = 0x22 then [0x5C, 0x22] \<comment> \<open>quotation mark\<close>
      else if c = 0x5C then [0x5C, 0x5C] \<comment> \<open>backslash\<close>
      else if c < 0x20 \<or> isLeadingSurrogate c \<or> isTrailingSurrogate c then UnicodeEscape c
      else [c])"

fun quoteChars :: "jsstring \<Rightarrow> jsstring" where
  "quoteChars [] = []"
| "quoteChars [c] = quoteCodeUnit c"
| "quoteChars (c # d # ds) =
     (if isLeadingSurrogate c \<and> isTrailingSurrogate d then c # d # quoteChars ds
      else quoteCodeUnit c @ quoteChars (d # ds))"

definition QuoteJSONString :: "jsstring \<Rightarrow> jsstring" where
  "QuoteJSONString v = 0x22 # quoteChars v @ [0x22]"

text \<open>\<open>join sep xs\<close> is \<open>xs.join(sep)\<close>.\<close>

fun join :: "'a list \<Rightarrow> 'a list list \<Rightarrow> 'a list" where
  "join sep [] = []"
| "join sep [x] = x"
| "join sep (x # y # ys) = x @ sep @ join sep (y # ys)"

text \<open>
  \<open>SerializeJSONProperty\<close>, \<open>SerializeJSONArray\<close> and \<open>SerializeJSONObject\<close> of
  ECMA-262 with the gap and the current indentation as parameters. With a non-empty gap an
  array or object that is not empty is written on several lines, every entry indented by the
  indentation plus the gap, and a property as its quoted name, a colon, a space and its value.
\<close>

fun SerializeJSONProperty :: "jsstring \<Rightarrow> jsstring \<Rightarrow> jsval \<Rightarrow> jsstring" where
  "SerializeJSONProperty gap indent JNull = js ''null''"
| "SerializeJSONProperty gap indent (JBool b) = (if b then js ''true'' else js ''false'')"
| "SerializeJSONProperty gap indent (JNumber lit) = lit"
| "SerializeJSONProperty gap indent (JString s) = QuoteJSONString s"
| "SerializeJSONProperty gap indent (JArray xs) =
     (if xs = [] then js ''[]''
      else if gap = [] then
        [0x5B] @ join [0x2C] (map (SerializeJSONProperty gap (indent @ gap)) xs) @ [0x5D]
      else
        [0x5B, 0x0A] @ (indent @ gap)
          @ join ([0x2C, 0x0A] @ (indent @ gap)) (map (SerializeJSONProperty gap (indent @ gap)) xs)
          @ [0x0A] @ indent @ [0x5D])"
| "SerializeJSONProperty gap indent (JObject kvs) =
     (if kvs = [] then js ''{}''
      else if gap = [] then
        [0x7B] @ join [0x2C]
           (map (\<lambda>(k, v). QuoteJSONString k @ [0x3A] @ SerializeJSONProperty gap (indent @ gap) v) kvs)
          @ [0x7D]
      else
        [0x7B, 0x0A] @ (indent @ gap)
          @ join ([0x2C, 0x0A] @ (indent @ gap))
              (map (\<lambda>(k, v). QuoteJSONString k @ [0x3A, 0x20]
                                @ SerializeJSONProperty gap (indent @ gap) v) kvs)
          @ [0x0A] @ indent @ [0x7D])"

text \<open>
  \<open>JSON.stringify(value, null, space)\<close> for a number \<open>space\<close>: the gap is that many
  spaces, at most ten.
\<close>

definition JSON_stringify :: "jsval \<Rightarrow> nat \<Rightarrow> jsstring" where
  "JSON_stringify v space = SerializeJSONProperty (replicate (min 10 space) 0x20) [] v"

section \<open>\<open>JSON.parse\<close>\<close>

text \<open>
  A recursive-descent parser for the JSON grammar (ECMA-404), which is what \<open>JSON.parse\<close>
  accepts. Every function takes the text that is left and returns what it has read together
  with the rest, \<open>None\<close> for a syntax error.
\<close>

definition isJSONWhiteSpace :: "cu \<Rightarrow> bool" where
  "isJSONWhiteSpace c \<longleftrightarrow> c = 0x20 \<or> c = 0x0A \<or> c = 0x0D \<or> c = 0x09"

definition skipWs :: "jsstring \<Rightarrow> jsstring" where
  "skipWs s = dropWhile isJSONWhiteSpace s"

text \<open>
  A string after its opening quotation mark: \<open>parseChars\<close> reads up to the closing
  quotation mark and returns the code units the string denotes. A control character is an
  error, and so is a backslash that is not followed by one of the eight escape characters or
  by \<open>u\<close> and four hexadecimal digits (in either case).
\<close>

definition hexValue :: "cu \<Rightarrow> nat option" where
  "hexValue c =
     (if 0x30 \<le> c \<and> c \<le> 0x39 then Some (unat c - 48)
      else if 0x61 \<le> c \<and> c \<le> 0x66 then Some (unat c - 87)
      else if 0x41 \<le> c \<and> c \<le> 0x46 then Some (unat c - 55)
      else None)"

definition hex4 :: "cu \<Rightarrow> cu \<Rightarrow> cu \<Rightarrow> cu \<Rightarrow> cu option" where
  "hex4 h1 h2 h3 h4 =
     (case (hexValue h1, hexValue h2, hexValue h3, hexValue h4) of
        (Some a, Some b, Some c, Some d) \<Rightarrow> Some (of_nat (4096 * a + 256 * b + 16 * c + d))
      | _ \<Rightarrow> None)"

definition simpleEscape :: "cu \<Rightarrow> cu option" where
  "simpleEscape e =
     (if e = 0x22 then Some 0x22 \<comment> \<open>quotation mark\<close>
      else if e = 0x5C then Some 0x5C \<comment> \<open>backslash\<close>
      else if e = 0x2F then Some 0x2F \<comment> \<open>solidus\<close>
      else if e = 0x62 then Some 0x08 \<comment> \<open>b: backspace\<close>
      else if e = 0x66 then Some 0x0C \<comment> \<open>f: form feed\<close>
      else if e = 0x6E then Some 0x0A \<comment> \<open>n: line feed\<close>
      else if e = 0x72 then Some 0x0D \<comment> \<open>r: carriage return\<close>
      else if e = 0x74 then Some 0x09 \<comment> \<open>t: tab\<close>
      else None)"

fun parseChars :: "jsstring \<Rightarrow> (jsstring \<times> jsstring) option" where
  "parseChars [] = None"
| "parseChars (c # cs) =
     (if c = 0x22 \<comment> \<open>the closing quotation mark\<close> then Some ([], cs)
      else if c = 0x5C \<comment> \<open>a backslash: an escape\<close> then
        (case cs of
           [] \<Rightarrow> None
         | e # es \<Rightarrow>
             if e = 0x75 \<comment> \<open>u and four hexadecimal digits\<close> then
               (case es of
                  h1 # h2 # h3 # h4 # r \<Rightarrow>
                    (case hex4 h1 h2 h3 h4 of
                       None \<Rightarrow> None
                     | Some u \<Rightarrow>
                         (case parseChars r of
                            None \<Rightarrow> None
                          | Some (s, r') \<Rightarrow> Some (u # s, r')))
                | _ \<Rightarrow> None)
             else
               (case simpleEscape e of
                  None \<Rightarrow> None
                | Some x \<Rightarrow>
                    (case parseChars es of
                       None \<Rightarrow> None
                     | Some (s, r') \<Rightarrow> Some (x # s, r'))))
      else if c < 0x20 \<comment> \<open>a control character\<close> then None
      else
        (case parseChars cs of
           None \<Rightarrow> None
         | Some (s, r') \<Rightarrow> Some (c # s, r')))"

text \<open>
  A number: an optional minus, then a zero or a digit from 1 to 9 followed by digits, then
  optionally a full stop and digits, then optionally an exponent: e or E, an optional sign,
  and digits. \<open>parseNumber\<close> returns the token.
\<close>

definition isDigit :: "cu \<Rightarrow> bool" where
  "isDigit c \<longleftrightarrow> 0x30 \<le> c \<and> c \<le> 0x39"

definition parseDigits :: "jsstring \<Rightarrow> (jsstring \<times> jsstring) option" where
  "parseDigits s =
     (if takeWhile isDigit s = [] then None
      else Some (takeWhile isDigit s, dropWhile isDigit s))"

definition parseInt :: "jsstring \<Rightarrow> (jsstring \<times> jsstring) option" where
  "parseInt s =
     (case s of
        [] \<Rightarrow> None
      | c # cs \<Rightarrow> if c = 0x30 then Some ([c], cs) else parseDigits s)"

definition parseFrac :: "jsstring \<Rightarrow> (jsstring \<times> jsstring) option" where
  "parseFrac s =
     (case s of
        [] \<Rightarrow> Some ([], s)
      | c # cs \<Rightarrow>
          if c = 0x2E then
            (case parseDigits cs of None \<Rightarrow> None | Some (ds, r) \<Rightarrow> Some (c # ds, r))
          else Some ([], s))"

definition parseSign :: "jsstring \<Rightarrow> jsstring \<times> jsstring" where
  "parseSign s =
     (case s of
        [] \<Rightarrow> ([], s)
      | c # cs \<Rightarrow> if c = 0x2B \<or> c = 0x2D then ([c], cs) else ([], s))"

definition parseExp :: "jsstring \<Rightarrow> (jsstring \<times> jsstring) option" where
  "parseExp s =
     (case s of
        [] \<Rightarrow> Some ([], s)
      | c # cs \<Rightarrow>
          if c = 0x65 \<or> c = 0x45 then
            (case parseDigits (snd (parseSign cs)) of
               None \<Rightarrow> None
             | Some (ds, r) \<Rightarrow> Some (c # fst (parseSign cs) @ ds, r))
          else Some ([], s))"

definition parseNumber :: "jsstring \<Rightarrow> (jsstring \<times> jsstring) option" where
  "parseNumber s =
     (case s of
        [] \<Rightarrow> None
      | c # cs \<Rightarrow>
          (case parseInt (if c = 0x2D then cs else s) of
             None \<Rightarrow> None
           | Some (i, r1) \<Rightarrow>
               (case parseFrac r1 of
                  None \<Rightarrow> None
                | Some (f, r2) \<Rightarrow>
                    (case parseExp r2 of
                       None \<Rightarrow> None
                     | Some (e, r3) \<Rightarrow> Some ((if c = 0x2D then [c] else []) @ i @ f @ e, r3)))))"

text \<open>The three literal names \<open>true\<close>, \<open>false\<close> and \<open>null\<close>.\<close>

definition parseLiteral :: "jsstring \<Rightarrow> jsval \<Rightarrow> jsstring \<Rightarrow> (jsval \<times> jsstring) option" where
  "parseLiteral word v s =
     (if take (length word) s = word then Some (v, drop (length word) s) else None)"

text \<open>
  A property read from an object's text is stored under its name: the value of a name that
  the object already has is replaced in its place, a new name is added at the end.
\<close>

fun CreateDataProperty :: "(jsstring \<times> jsval) list \<Rightarrow> jsstring \<Rightarrow> jsval \<Rightarrow> (jsstring \<times> jsval) list" where
  "CreateDataProperty [] k v = [(k, v)]"
| "CreateDataProperty ((k', v') # kvs) k v =
     (if k' = k then (k', v) # kvs else (k', v') # CreateDataProperty kvs k v)"

text \<open>
  A value, the elements of an array after its opening bracket, and the properties of an
  object after its opening brace. \<open>parseElements\<close> and \<open>parseMembers\<close> are called at the
  first character of an element or property, white space skipped, with the elements or
  properties read so far.
\<close>

function parseValue :: "jsstring \<Rightarrow> (jsval \<times> jsstring) option"
  and parseElements :: "jsval list \<Rightarrow> jsstring \<Rightarrow> (jsval \<times> jsstring) option"
  and parseMembers :: "(jsstring \<times> jsval) list \<Rightarrow> jsstring \<Rightarrow> (jsval \<times> jsstring) option"
where
  "parseValue [] = None"
| "parseValue (c # cs) =
     (if c = 0x7B \<comment> \<open>an opening brace: an object\<close> then
        (case skipWs cs of
           [] \<Rightarrow> None
         | d # ds \<Rightarrow> if d = 0x7D then Some (JObject [], ds) else parseMembers [] (d # ds))
      else if c = 0x5B \<comment> \<open>an opening bracket: an array\<close> then
        (case skipWs cs of
           [] \<Rightarrow> None
         | d # ds \<Rightarrow> if d = 0x5D then Some (JArray [], ds) else parseElements [] (d # ds))
      else if c = 0x22 \<comment> \<open>a quotation mark: a string\<close> then
        (case parseChars cs of None \<Rightarrow> None | Some (s, r) \<Rightarrow> Some (JString s, r))
      else if c = 0x74 \<comment> \<open>t\<close> then parseLiteral (js ''true'') (JBool True) (c # cs)
      else if c = 0x66 \<comment> \<open>f\<close> then parseLiteral (js ''false'') (JBool False) (c # cs)
      else if c = 0x6E \<comment> \<open>n\<close> then parseLiteral (js ''null'') JNull (c # cs)
      else
        (case parseNumber (c # cs) of None \<Rightarrow> None | Some (lit, r) \<Rightarrow> Some (JNumber lit, r)))"
| "parseElements acc s =
     (case parseValue s of
        None \<Rightarrow> None
      | Some (v, r) \<Rightarrow>
          (case skipWs r of
             [] \<Rightarrow> None
           | d # ds \<Rightarrow>
               if d = 0x2C \<comment> \<open>a comma: another element\<close>
               then parseElements (acc @ [v]) (skipWs ds)
               else if d = 0x5D \<comment> \<open>the closing bracket\<close>
               then Some (JArray (acc @ [v]), ds)
               else None))"
| "parseMembers acc [] = None"
| "parseMembers acc (c # cs) =
     (if c = 0x22 \<comment> \<open>a quotation mark: the name\<close> then
        (case parseChars cs of
           None \<Rightarrow> None
         | Some (k, r) \<Rightarrow>
             (case skipWs r of
                [] \<Rightarrow> None
              | d # ds \<Rightarrow>
                  if d = 0x3A \<comment> \<open>the colon\<close> then
                    (case parseValue (skipWs ds) of
                       None \<Rightarrow> None
                     | Some (v, r') \<Rightarrow>
                         (case skipWs r' of
                            [] \<Rightarrow> None
                          | e # es \<Rightarrow>
                              if e = 0x2C \<comment> \<open>a comma: another property\<close>
                              then parseMembers (CreateDataProperty acc k v) (skipWs es)
                              else if e = 0x7D \<comment> \<open>the closing brace\<close>
                              then Some (JObject (CreateDataProperty acc k v), es)
                              else None))
                  else None))
      else None)"
  by pat_completeness auto

text \<open>
  Termination: every function returns a rest that is shorter than the text it was given, so
  every recursive call is on a shorter text, or on the same text from \<open>parseElements\<close> to
  \<open>parseValue\<close>.
\<close>

lemma skipWs_length: "length (skipWs s) \<le> length s"
  by (simp add: skipWs_def length_dropWhile_le)

lemma skipWs_Cons_length: "skipWs s = d # ds \<Longrightarrow> length ds < length s"
  using skipWs_length [of s] by simp

lemma parseChars_length: "parseChars s = Some (v, r) \<Longrightarrow> length r < length s"
  by (induction s arbitrary: v r rule: parseChars.induct)
     (fastforce split: if_splits list.splits option.splits)+

lemma parseDigits_length: "parseDigits s = Some (v, r) \<Longrightarrow> length r < length s"
  unfolding parseDigits_def
  by (cases s) (auto split: if_splits intro: le_imp_less_Suc length_dropWhile_le)

lemma parseDigits_length_le: "parseDigits s = Some (v, r) \<Longrightarrow> length r \<le> length s"
  using parseDigits_length [of s v r] by simp

lemma parseInt_length: "parseInt s = Some (v, r) \<Longrightarrow> length r < length s"
  unfolding parseInt_def
  by (auto split: list.splits if_splits dest: parseDigits_length)

lemma parseFrac_length: "parseFrac s = Some (v, r) \<Longrightarrow> length r \<le> length s"
  unfolding parseFrac_def
  by (auto split: list.splits if_splits option.splits dest: parseDigits_length)

lemma parseSign_length: "length (snd (parseSign s)) \<le> length s"
  unfolding parseSign_def by (auto split: list.splits)

lemma parseExp_length: "parseExp s = Some (v, r) \<Longrightarrow> length r \<le> length s"
  unfolding parseExp_def
  apply (auto split: list.splits if_splits option.splits dest!: parseDigits_length)
  using parseSign_length le_trans less_imp_le_nat le_SucI apply metis+
  done

lemma parseNumber_length: "parseNumber s = Some (v, r) \<Longrightarrow> length r < length s"
  unfolding parseNumber_def
  by (auto split: list.splits if_splits option.splits
        dest!: parseInt_length parseFrac_length parseExp_length)

lemma parseLiteral_length:
  "parseLiteral w v s = Some (x, r) \<Longrightarrow> w \<noteq> [] \<Longrightarrow> length r < length s"
  unfolding parseLiteral_def
  by (cases s) (auto split: if_splits)


lemma parse_length_dom:
  "parseValue_parseElements_parseMembers_dom (Inl s) \<Longrightarrow>
     \<forall>v r. parseValue s = Some (v, r) \<longrightarrow> length r < length s"
  "parseValue_parseElements_parseMembers_dom (Inr (Inl (acc, s))) \<Longrightarrow>
     \<forall>v r. parseElements acc s = Some (v, r) \<longrightarrow> length r < length s"
  "parseValue_parseElements_parseMembers_dom (Inr (Inr (kvs, s))) \<Longrightarrow>
     \<forall>v r. parseMembers kvs s = Some (v, r) \<longrightarrow> length r < length s"
proof (induct rule: parseValue_parseElements_parseMembers.pinduct)
  case 1
  then show ?case by (simp add: parseValue.psimps)
next
  case (2 c cs)
  show ?case
  proof (intro allI impI)
    fix v r
    assume p: "parseValue (c # cs) = Some (v, r)"
    note eq = p [unfolded parseValue.psimps(2) [OF "2.hyps"(1)]]
    show "length r < length (c # cs)"
    proof (cases "c = 0x7B")
      case True
      with eq obtain d ds where s: "skipWs cs = d # ds"
        by (auto split: list.splits)
      show ?thesis
      proof (cases "d = 0x7D")
        case T2: True
        with eq True s have "r = ds" by simp
        with skipWs_Cons_length [OF s] show ?thesis by simp
      next
        case False
        with eq True s have "parseMembers [] (d # ds) = Some (v, r)" by simp
        with "2.hyps"(2) [OF True s False] have "length r < length (d # ds)" by blast
        with skipWs_length [of cs] s show ?thesis by simp
      qed
    next
      case n1: False
      show ?thesis
      proof (cases "c = 0x5B")
        case True
        with eq n1 obtain d ds where s: "skipWs cs = d # ds"
          by (auto split: list.splits)
        show ?thesis
        proof (cases "d = 0x5D")
          case T2: True
          with eq n1 True s have "r = ds" by simp
          with skipWs_Cons_length [OF s] show ?thesis by simp
        next
          case False
          with eq n1 True s have "parseElements [] (d # ds) = Some (v, r)" by simp
          with "2.hyps"(3) [OF n1 True s False] have "length r < length (d # ds)" by blast
          with skipWs_length [of cs] s show ?thesis by simp
        qed
      next
        case n2: False
        with eq n1 show ?thesis
          by (auto split: if_splits option.splits
                dest!: parseChars_length parseNumber_length
                dest: parseLiteral_length simp: js_def)
      qed
    qed
  qed
next
  case (3 acc s)
  show ?case
  proof (intro allI impI)
    fix v r
    assume p: "parseElements acc s = Some (v, r)"
    note eq = p [unfolded parseElements.psimps [OF "3.hyps"(1)]]
    from eq obtain v1 r1 where pv: "parseValue s = Some (v1, r1)"
      by (auto split: option.splits)
    with "3.hyps"(2) have l1: "length r1 < length s" by blast
    from eq pv obtain d ds where sk: "skipWs r1 = d # ds"
      by (auto split: list.splits)
    show "length r < length s"
    proof (cases "d = 0x2C")
      case True
      with eq pv sk have "parseElements (acc @ [v1]) (skipWs ds) = Some (v, r)" by simp
      with "3.hyps"(3) [OF pv refl sk True] have "length r < length (skipWs ds)" by blast
      with skipWs_length [of ds] skipWs_Cons_length [OF sk] l1 show ?thesis by simp
    next
      case False
      with eq pv sk have "r = ds" by (auto split: if_splits)
      with skipWs_Cons_length [OF sk] l1 show ?thesis by simp
    qed
  qed
next
  case (4 acc)
  then show ?case by (simp add: parseMembers.psimps)
next
  case (5 acc c cs)
  show ?case
  proof (intro allI impI)
    fix v r
    assume p: "parseMembers acc (c # cs) = Some (v, r)"
    note eq = p [unfolded parseMembers.psimps(2) [OF "5.hyps"(1)]]
    from eq have c: "c = 0x22" by (auto split: if_splits)
    from eq c obtain k r0 where pc: "parseChars cs = Some (k, r0)"
      by (auto split: option.splits)
    from eq c pc obtain d ds where sk: "skipWs r0 = d # ds"
      by (auto split: list.splits)
    from eq c pc sk have d: "d = 0x3A" by (auto split: if_splits)
    from eq c pc sk d obtain v1 r1 where pv: "parseValue (skipWs ds) = Some (v1, r1)"
      by (auto split: option.splits)
    from eq c pc sk d pv obtain e es where sk2: "skipWs r1 = e # es"
      by (auto split: list.splits)
    from "5.hyps"(2) [OF c pc refl sk d] pv have l1: "length r1 < length (skipWs ds)" by blast
    have l0: "length (skipWs ds) < length cs"
      using skipWs_length [of ds] skipWs_Cons_length [OF sk] parseChars_length [OF pc] by simp
    show "length r < length (c # cs)"
    proof (cases "e = 0x2C")
      case True
      with eq c pc sk d pv sk2
      have "parseMembers (CreateDataProperty acc k v1) (skipWs es) = Some (v, r)" by simp
      with "5.hyps"(3) [OF c pc refl sk d pv refl sk2 True]
      have "length r < length (skipWs es)" by blast
      with skipWs_length [of es] skipWs_Cons_length [OF sk2] l1 l0 show ?thesis by simp
    next
      case False
      with eq c pc sk d pv sk2 have "r = es" by (auto split: if_splits)
      with skipWs_Cons_length [OF sk2] l1 l0 show ?thesis by simp
    qed
  qed
qed

termination parseValue
  apply (relation "measure (\<lambda>x. case x of Inl s \<Rightarrow> 2 * length s
                                   | Inr (Inl (acc, s)) \<Rightarrow> 2 * length s + 1
                                   | Inr (Inr (kvs, s)) \<Rightarrow> 2 * length s + 1)")
  apply simp_all
  subgoal for c cs d ds
    using skipWs_Cons_length [of cs d ds] by simp
  subgoal for c cs d ds
    using skipWs_Cons_length [of cs d ds] by simp
  subgoal for s p v r d ds
    using parse_length_dom(1) [of s] skipWs_Cons_length [of r 44 ds] skipWs_length [of ds]
    by auto
  subgoal for c cs p k r d ds
    using parseChars_length [of cs k r] skipWs_Cons_length [of r 58 ds] skipWs_length [of ds]
    by auto
  subgoal for c cs p k r d ds p' v r' e es
    using parseChars_length [of cs k r] skipWs_Cons_length [of r 58 ds] skipWs_length [of ds]
      parse_length_dom(1) [of "skipWs ds"] skipWs_Cons_length [of r' 44 es]
      skipWs_length [of es]
    by auto
  done


text \<open>
  \<open>JSON.parse(text)\<close>: one value with white space around it and nothing else; otherwise a
  \<open>SyntaxError\<close> is thrown.
\<close>

datatype exn = SyntaxError | TypeError

definition JSON_parse :: "jsstring \<Rightarrow> exn + jsval" where
  "JSON_parse jsonText =
     (case parseValue (skipWs jsonText) of
        None \<Rightarrow> Inl SyntaxError
      | Some (v, r) \<Rightarrow> if skipWs r = [] then Inr v else Inl SyntaxError)"

section \<open>Properties of a parsed value\<close>

text \<open>
  The own property keys of a value: the names of an object's properties; the indices and
  \<open>length\<close> for an array; none for a primitive. The properties that objects and arrays
  inherit from \<open>Object.prototype\<close> and \<open>Array.prototype\<close> are not modelled: none of them
  has one of the thirteen names the self test asks for.
\<close>

definition decimalDigit :: "nat \<Rightarrow> cu" where
  "decimalDigit k = of_nat (48 + k)"

fun ToString_nat :: "nat \<Rightarrow> jsstring" where
  "ToString_nat n =
     (if n < 10 then [decimalDigit n]
      else ToString_nat (n div 10) @ [decimalDigit (n mod 10)])"

declare ToString_nat.simps [simp del]

fun OwnPropertyKeys :: "jsval \<Rightarrow> jsstring list option" where
  "OwnPropertyKeys (JObject kvs) = Some (map fst kvs)"
| "OwnPropertyKeys (JArray xs) = Some (map ToString_nat [0..<length xs] @ [js ''length''])"
| "OwnPropertyKeys v = None"

text \<open>
  \<open>key in v\<close>, where \<open>v\<close> may be \<open>undefined\<close> (\<open>None\<close>): a \<open>TypeError\<close> unless \<open>v\<close> is
  an object or an array.
\<close>

definition js_in :: "jsstring \<Rightarrow> jsval option \<Rightarrow> exn + bool" where
  "js_in key v =
     (case v of
        None \<Rightarrow> Inl TypeError
      | Some x \<Rightarrow>
          (case OwnPropertyKeys x of
             None \<Rightarrow> Inl TypeError
           | Some ks \<Rightarrow> Inr (key \<in> set ks)))"

text \<open>
  \<open>v.key\<close>: the property's value, \<open>undefined\<close> (\<open>None\<close>) when there is none, a
  \<open>TypeError\<close> on \<open>null\<close>. The self test reads a property only of a value on which \<open>in\<close>
  has not thrown, an object or an array; for a boolean, a number or a string the clause
  gives \<open>undefined\<close>.
\<close>

fun Get :: "jsval \<Rightarrow> jsstring \<Rightarrow> exn + jsval option" where
  "Get (JObject kvs) key = Inr (map_of kvs key)"
| "Get (JArray xs) key =
     Inr (if key = js ''length'' then Some (JNumber (ToString_nat (length xs)))
          else map_of (zip (map ToString_nat [0..<length xs]) xs) key)"
| "Get JNull key = Inl TypeError"
| "Get v key = Inr None"

text \<open>\<open>xs.every(p)\<close> stops at the first element on which \<open>p\<close> is false or throws.\<close>

fun every :: "('a \<Rightarrow> exn + bool) \<Rightarrow> 'a list \<Rightarrow> exn + bool" where
  "every p [] = Inr True"
| "every p (x # xs) =
     (case p x of
        Inl e \<Rightarrow> Inl e
      | Inr b \<Rightarrow> if b then every p xs else Inr False)"

text \<open>\<open>a && b\<close>: \<open>b\<close> is evaluated only when \<open>a\<close> is true.\<close>

fun and_then :: "exn + bool \<Rightarrow> exn + bool \<Rightarrow> exn + bool" where
  "and_then (Inl e) b = Inl e"
| "and_then (Inr False) b = Inr False"
| "and_then (Inr True) b = b"

section \<open>Generating, copying, downloading and testing the JSON\<close>

definition jsonObject :: "FormState \<Rightarrow> jsval" where
  "jsonObject fs = JObject [
     (js ''title'', JString (idea fs)),
     (js ''description'', JString (js ''An ASMR-style video about: '' @ idea fs @ js ''.'')),
     (js ''style'', JString (js ''ASMR'')),
     (js ''mood'', JArray (map JString (moods fs))),
     (js ''camera'', JObject [
        (js ''movement'', JString (cameraMovement fs)),
        (js ''angle'', JString (cameraAngle fs)),
        (js ''focus'', JString (cameraFocus fs))]),
     (js ''soundscape'', JObject [
        (js ''primary'', JString (soundscapePrimary fs)),
        (js ''secondary'', JArray (map JString (soundscapeSecondary fs))),
        (js ''quality'', JString (soundscapeQuality fs))]),
     (js ''visual_effects'', JArray (map JString (visualEffects fs)))]"

definition handleGenerateJson :: "App \<Rightarrow> App" where
  "handleGenerateJson st =
     st\<lparr>generatedJson := Some (JSON_stringify (jsonObject (formState st)) 2),
        validationStatus := Unchecked\<rparr>"

text \<open>\<open>!generatedJson\<close> is true for \<open>null\<close> and for the empty string.\<close>

definition falsy :: "jsstring option \<Rightarrow> bool" where
  "falsy g \<longleftrightarrow> g = None \<or> g = Some []"

text \<open>
  \<open>handleCopyJson\<close> starts the clipboard write. The callback given to \<open>then\<close> runs when
  the write has succeeded (\<open>copyFulfilled\<close>) and starts a timer of two seconds, whose
  callback is \<open>copyTimeout\<close>.
\<close>

definition handleCopyJson :: "App \<Rightarrow> App" where
  "handleCopyJson st =
     (case generatedJson st of
        None \<Rightarrow> st
      | Some g \<Rightarrow> if g = [] then st else st\<lparr>effects := effects st @ [ClipboardWrite g]\<rparr>)"

definition copyFulfilled :: "App \<Rightarrow> App" where
  "copyFulfilled st = st\<lparr>copyButtonText := js ''Copied!''\<rparr>"

definition copyTimeout :: "App \<Rightarrow> App" where
  "copyTimeout st = st\<lparr>copyButtonText := js ''Copy''\<rparr>"

text \<open>
  White space of ECMAScript, what \<open>trim\<close> removes and \<open>\s\<close> matches: the code points
  of \<open>WhiteSpace\<close> and of \<open>LineTerminator\<close>.
\<close>

definition isWhiteSpace :: "cu \<Rightarrow> bool" where
  "isWhiteSpace c \<longleftrightarrow>
     c = 0x0009 \<or> c = 0x000A \<or> c = 0x000B \<or> c = 0x000C \<or> c = 0x000D \<or> c = 0x0020
     \<or> c = 0x00A0 \<or> c = 0x1680 \<or> (0x2000 \<le> c \<and> c \<le> 0x200A) \<or> c = 0x2028 \<or> c = 0x2029
     \<or> c = 0x202F \<or> c = 0x205F \<or> c = 0x3000 \<or> c = 0xFEFF"

definition trim :: "jsstring \<Rightarrow> jsstring" where
  "trim s = rev (dropWhile isWhiteSpace (rev (dropWhile isWhiteSpace s)))"

text \<open>
  \<open>s.replace(/\s+/g, '_')\<close>: from left to right, every match of \<open>\s+\<close>, which takes as
  many white space characters as there are, is replaced by one underscore.
\<close>

function replaceWhiteSpace :: "jsstring \<Rightarrow> jsstring" where
  "replaceWhiteSpace [] = []"
| "replaceWhiteSpace (c # cs) =
     (if isWhiteSpace c then 0x5F # replaceWhiteSpace (dropWhile isWhiteSpace cs)
      else c # replaceWhiteSpace cs)"
  by pat_completeness auto
termination
  by (relation "measure length") (auto simp: less_Suc_eq_le length_dropWhile_le)

text \<open>
  \<open>String.prototype.toLowerCase\<close> follows the case mappings of the Unicode tables of the
  runtime, which are not part of the repository: it is the parameter \<open>toLowerCase\<close>.
  \<open>a || 'prompt'\<close> is \<open>'prompt'\<close> when \<open>a\<close> is the empty string.
\<close>

definition fileName :: "(jsstring \<Rightarrow> jsstring) \<Rightarrow> jsstring \<Rightarrow> jsstring" where
  "fileName toLowerCase idea_text =
     (if replaceWhiteSpace (toLowerCase (trim idea_text)) = [] then js ''prompt''
      else replaceWhiteSpace (toLowerCase (trim idea_text)))"

text \<open>
  \<open>handleDownloadJson\<close> makes a link to a blob of the generated text, sets its
  \<open>download\<close> attribute to the file name with \<open>.json\<close> appended, and clicks it.
\<close>

definition handleDownloadJson :: "(jsstring \<Rightarrow> jsstring) \<Rightarrow> App \<Rightarrow> App" where
  "handleDownloadJson toLowerCase st =
     (case generatedJson st of
        None \<Rightarrow> st
      | Some g \<Rightarrow>
          if g = [] then st
          else st\<lparr>effects := effects st
                 @ [Download (fileName toLowerCase (idea (formState st)) @ js ''.json'') g]\<rparr>)"

definition requiredKeys :: "jsstring list" where
  "requiredKeys = [js ''title'', js ''description'', js ''style'', js ''mood'', js ''camera'',
                   js ''soundscape'', js ''visual_effects'']"

text \<open>The body of the \<open>try\<close> block of \<open>handleSelfTest\<close>: the status it sets, or what it throws.\<close>

definition selfTest :: "jsstring \<Rightarrow> exn + ValidationStatus" where
  "selfTest jsonText =
     (case JSON_parse jsonText of
        Inl e \<Rightarrow> Inl e
      | Inr parsed \<Rightarrow>
     (case every (\<lambda>key. js_in key (Some parsed)) requiredKeys of
        Inl e \<Rightarrow> Inl e
      | Inr hasAllKeys \<Rightarrow>
     (case Get parsed (js ''camera'') of
        Inl e \<Rightarrow> Inl e
      | Inr camera \<Rightarrow>
     (case and_then (and_then (js_in (js ''movement'') camera) (js_in (js ''angle'') camera))
             (js_in (js ''focus'') camera) of
        Inl e \<Rightarrow> Inl e
      | Inr cameraKeysOk \<Rightarrow>
     (case Get parsed (js ''soundscape'') of
        Inl e \<Rightarrow> Inl e
      | Inr soundscape \<Rightarrow>
     (case and_then (and_then (js_in (js ''primary'') soundscape)
                       (js_in (js ''secondary'') soundscape))
             (js_in (js ''quality'') soundscape) of
        Inl e \<Rightarrow> Inl e
      | Inr soundscapeKeysOk \<Rightarrow>
          Inr (if hasAllKeys \<and> cameraKeysOk \<and> soundscapeKeysOk then Valid else Invalid)))))))"

text \<open>\<open>handleSelfTest\<close>: the guard, the \<open>try\<close> block, and \<open>catch\<close> setting \<open>'invalid'\<close>.\<close>

definition handleSelfTest :: "App \<Rightarrow> App" where
  "handleSelfTest st =
     (case generatedJson st of
        None \<Rightarrow> st
      | Some g \<Rightarrow>
          if g = [] then st
          else st\<lparr>validationStatus :=
                    (case selfTest g of Inl e \<Rightarrow> Invalid | Inr status \<Rightarrow> status)\<rparr>)"

section \<open>The component as a transition system\<close>

datatype Event =
    InputChange jsstring
  | SelectCameraMovement jsstring
  | SelectCameraAngle jsstring
  | SelectCameraFocus jsstring
  | SelectSoundscapePrimary jsstring
  | SelectSoundscapeQuality jsstring
  | ToggleMultiSelect jsstring MultiField
  | ApplyPreset Preset
  | GenerateJson
  | Reset
  | CopyJson
  | CopyFulfilled
  | CopyTimeout
  | DownloadJson
  | SelfTest
  | SetTheme jsstring

fun handle :: "(jsstring \<Rightarrow> jsstring) \<Rightarrow> Event \<Rightarrow> App \<Rightarrow> App" where
  "handle lc (InputChange v) st = handleInputChange v st"
| "handle lc (SelectCameraMovement v) st = selectCameraMovement v st"
| "handle lc (SelectCameraAngle v) st = selectCameraAngle v st"
| "handle lc (SelectCameraFocus v) st = selectCameraFocus v st"
| "handle lc (SelectSoundscapePrimary v) st = selectSoundscapePrimary v st"
| "handle lc (SelectSoundscapeQuality v) st = selectSoundscapeQuality v st"
| "handle lc (ToggleMultiSelect item field) st = toggleMultiSelect item field st"
| "handle lc (ApplyPreset preset) st = handleApplyPreset preset st"
| "handle lc GenerateJson st = handleGenerateJson st"
| "handle lc Reset st = handleReset st"
| "handle lc CopyJson st = handleCopyJson st"
| "handle lc CopyFulfilled st = copyFulfilled st"
| "handle lc CopyTimeout st = copyTimeout st"
| "handle lc DownloadJson st = handleDownloadJson lc st"
| "handle lc SelfTest st = handleSelfTest st"
| "handle lc (SetTheme t) st = handleSetTheme t st"

text \<open>
  The events the rendered page can produce in a state. A select control offers the entries
  of its option list; a group of chips toggles the entries of its item list; the preset
  buttons are those of \<open>PRESETS\<close>; the theme buttons set one of three names. The copy,
  download and self-test buttons are rendered only when there is generated JSON, and the
  copy button is disabled while it reads \<open>Copied!\<close>. The two callbacks of a clipboard
  write may run at any later moment.
\<close>

fun items :: "MultiField \<Rightarrow> jsstring list" where
  "items Moods = MOODS"
| "items SoundscapeSecondary = SECONDARY_SOUNDS"
| "items VisualEffects = VISUAL_EFFECTS"

fun offered :: "App \<Rightarrow> Event \<Rightarrow> bool" where
  "offered st (InputChange v) = True"
| "offered st (SelectCameraMovement v) = (v \<in> set CAMERA_MOVEMENTS)"
| "offered st (SelectCameraAngle v) = (v \<in> set CAMERA_ANGLES)"
| "offered st (SelectCameraFocus v) = (v \<in> set CAMERA_FOCUS)"
| "offered st (SelectSoundscapePrimary v) = (v \<in> set PRIMARY_SOUNDS)"
| "offered st (SelectSoundscapeQuality v) = (v \<in> set SOUND_QUALITIES)"
| "offered st (ToggleMultiSelect item field) = (item \<in> set (items field))"
| "offered st (ApplyPreset preset) = (preset \<in> set PRESETS)"
| "offered st GenerateJson = True"
| "offered st Reset = True"
| "offered st CopyJson = (\<not> falsy (generatedJson st) \<and> copyButtonText st \<noteq> js ''Copied!'')"
| "offered st CopyFulfilled = True"
| "offered st CopyTimeout = True"
| "offered st DownloadJson = (\<not> falsy (generatedJson st))"
| "offered st SelfTest = (\<not> falsy (generatedJson st))"
| "offered st (SetTheme t) = (t \<in> set [js ''dark'', js ''light'', js ''system''])"

inductive reachable :: "(jsstring \<Rightarrow> jsstring) \<Rightarrow> App \<Rightarrow> bool"
  for lc :: "jsstring \<Rightarrow> jsstring"
where
  start: "reachable lc (initialApp stored)"
| step: "reachable lc st \<Longrightarrow> offered st e \<Longrightarrow> reachable lc (handle lc e st)"

section \<open>Definitions used in the statements\<close>

text \<open>
  One property of an object as \<open>JSON.stringify\<close> writes it with a non-empty gap, \<open>S\<close>
  writing the value.
\<close>

definition member :: "(jsval \<Rightarrow> jsstring) \<Rightarrow> jsstring \<times> jsval \<Rightarrow> jsstring" where
  "member S kv = QuoteJSONString (fst kv) @ [0x3A, 0x20] @ S (snd kv)"

text \<open>
  The values that \<open>JSON.parse\<close> gives back as they were written: no number (its token
  stands for the value it is read as), and no object with two properties of one name.
\<close>

fun plain :: "jsval \<Rightarrow> bool" where
  "plain (JNumber lit) = False"
| "plain (JArray xs) = (\<forall>x\<in>set xs. plain x)"
| "plain (JObject kvs) = (distinct (map fst kvs) \<and> (\<forall>kv\<in>set kvs. plain (snd kv)))"
| "plain v = True"

text \<open>
  What every reachable form state satisfies: each single-valued field with an option list
  holds an entry of its list, and no multi-valued field holds an entry twice.
\<close>

definition formInvariant :: "FormState \<Rightarrow> bool" where
  "formInvariant fs \<longleftrightarrow>
     cameraMovement fs \<in> set CAMERA_MOVEMENTS \<and> cameraAngle fs \<in> set CAMERA_ANGLES
     \<and> cameraFocus fs \<in> set CAMERA_FOCUS \<and> soundscapePrimary fs \<in> set PRIMARY_SOUNDS
     \<and> soundscapeQuality fs \<in> set SOUND_QUALITIES
     \<and> distinct (moods fs) \<and> distinct (soundscapeSecondary fs) \<and> distinct (visualEffects fs)"

text \<open>
  For the file name of a download, the reading of "white space runs collapsed to single
  underscores" that the replacement is compared with: \<open>runs s\<close> cuts \<open>s\<close> into its
  maximal runs of white space and of other characters, and \<open>underscored s\<close> puts one
  underscore in the place of every run of white space.
\<close>

function runs :: "jsstring \<Rightarrow> jsstring list" where
  "runs [] = []"
| "runs (c # cs) =
     (c # takeWhile (\<lambda>d. isWhiteSpace d = isWhiteSpace c) cs)
       # runs (dropWhile (\<lambda>d. isWhiteSpace d = isWhiteSpace c) cs)"
  by pat_completeness auto
termination
  by (relation "measure length") (auto simp: less_Suc_eq_le length_dropWhile_le)

definition underscored :: "jsstring \<Rightarrow> jsstring" where
  "underscored s = concat (map (\<lambda>r. if list_ex isWhiteSpace r then [0x5F] else r) (runs s))"

text \<open>
  \<open>toLowerCase\<close> on a string of ASCII characters, as an instance of the parameter of
  \<open>fileName\<close>.
\<close>

definition asciiLower :: "jsstring \<Rightarrow> jsstring" where
  "asciiLower s = map (\<lambda>c. if 0x41 \<le> c \<and> c \<le> 0x5A then c + 0x20 else c) s"

section \<open>Reading back a quoted string\<close>

text \<open>
  \<open>parseChars\<close> reads back every string that \<open>QuoteJSONString\<close> has written: each of
  the four hexadecimal digits of an escape is read as the value it was written from, every
  escape as the code unit it stands for, and a code unit written as it is, is none of the
  three kinds that \<open>parseChars\<close> treats specially.
\<close>

lemma below_16:
  "d < 16 \<Longrightarrow> d = 0 \<or> d = 1 \<or> d = 2 \<or> d = 3 \<or> d = 4 \<or> d = 5 \<or> d = 6 \<or> d = 7
    \<or> d = 8 \<or> d = 9 \<or> d = 10 \<or> d = 11 \<or> d = 12 \<or> d = 13 \<or> d = 14 \<or> d = (15::nat)"
  by presburger

lemma hexValue_hexDigit_each:
  "hexValue (hexDigit 0) = Some 0" "hexValue (hexDigit 1) = Some 1"
  "hexValue (hexDigit 2) = Some 2" "hexValue (hexDigit 3) = Some 3"
  "hexValue (hexDigit 4) = Some 4" "hexValue (hexDigit 5) = Some 5"
  "hexValue (hexDigit 6) = Some 6" "hexValue (hexDigit 7) = Some 7"
  "hexValue (hexDigit 8) = Some 8" "hexValue (hexDigit 9) = Some 9"
  "hexValue (hexDigit 10) = Some 10" "hexValue (hexDigit 11) = Some 11"
  "hexValue (hexDigit 12) = Some 12" "hexValue (hexDigit 13) = Some 13"
  "hexValue (hexDigit 14) = Some 14" "hexValue (hexDigit 15) = Some 15"
  by (simp_all add: hexValue_def hexDigit_def)

lemma hexValue_hexDigit: "d < 16 \<Longrightarrow> hexValue (hexDigit d) = Some d"
proof -
  assume "d < 16"
  from below_16 [OF this] show ?thesis
    by (elim disjE) (simp_all only: hexValue_hexDigit_each)
qed

lemma nibbles:
  "4096 * (n div 4096) + 256 * (n div 256 mod 16) + 16 * (n div 16 mod 16) + n mod 16 = (n::nat)"
proof -
  have d1: "n div 256 = n div 16 div 16" using div_mult2_eq [of n 16 16] by simp
  have d2: "n div 4096 = n div 256 div 16" using div_mult2_eq [of n 256 16] by simp
  have a: "n = 16 * (n div 16) + n mod 16" by simp
  have b: "n div 16 = 16 * (n div 256) + n div 16 mod 16" unfolding d1 by simp
  have c: "n div 256 = 16 * (n div 4096) + n div 256 mod 16" unfolding d2 by simp
  show ?thesis using a b c by linarith
qed

lemma hex4_Some:
  "hexValue h1 = Some a \<Longrightarrow> hexValue h2 = Some b \<Longrightarrow> hexValue h3 = Some c \<Longrightarrow>
   hexValue h4 = Some d \<Longrightarrow> 4096 * a + 256 * b + 16 * c + d = n \<Longrightarrow>
   hex4 h1 h2 h3 h4 = Some (of_nat n)"
  unfolding hex4_def by (simp del: of_nat_add of_nat_mult)

lemma hex4_hexDigit:
  assumes "n < 65536"
  shows "hex4 (hexDigit (n div 4096)) (hexDigit (n div 256 mod 16))
           (hexDigit (n div 16 mod 16)) (hexDigit (n mod 16)) = Some (of_nat n)"
proof (rule hex4_Some)
  from assms have "n div 4096 < 16" by simp
  then show "hexValue (hexDigit (n div 4096)) = Some (n div 4096)"
    by (rule hexValue_hexDigit)
  show "hexValue (hexDigit (n div 256 mod 16)) = Some (n div 256 mod 16)"
    by (rule hexValue_hexDigit) simp
  show "hexValue (hexDigit (n div 16 mod 16)) = Some (n div 16 mod 16)"
    by (rule hexValue_hexDigit) simp
  show "hexValue (hexDigit (n mod 16)) = Some (n mod 16)"
    by (rule hexValue_hexDigit) simp
  show "4096 * (n div 4096) + 256 * (n div 256 mod 16) + 16 * (n div 16 mod 16) + n mod 16 = n"
    by (rule nibbles)
qed

lemma hex4_UnicodeEscape:
  "UnicodeEscape c = [0x5C, 0x75, h1, h2, h3, h4] \<Longrightarrow> hex4 h1 h2 h3 h4 = Some c"
proof -
  assume a: "UnicodeEscape c = [0x5C, 0x75, h1, h2, h3, h4]"
  have lt: "unat c < 65536" using unsigned_less [of c] by simp
  from a have "h1 = hexDigit (unat c div 4096)" "h2 = hexDigit (unat c div 256 mod 16)"
    "h3 = hexDigit (unat c div 16 mod 16)" "h4 = hexDigit (unat c mod 16)"
    by (simp_all add: UnicodeEscape_def)
  with hex4_hexDigit [OF lt] show ?thesis by simp
qed

lemma parseChars_UnicodeEscape:
  "parseChars (UnicodeEscape c @ t) =
     (case parseChars t of None \<Rightarrow> None | Some (s, r) \<Rightarrow> Some (c # s, r))"
proof -
  obtain h1 h2 h3 h4 where u: "UnicodeEscape c = [0x5C, 0x75, h1, h2, h3, h4]"
    by (simp add: UnicodeEscape_def)
  show ?thesis using hex4_UnicodeEscape [OF u] by (simp add: u)
qed

lemma parseChars_quoteCodeUnit:
  "parseChars (quoteCodeUnit c @ t) =
     (case parseChars t of None \<Rightarrow> None | Some (s, r) \<Rightarrow> Some (c # s, r))"
proof -
  consider "c = 0x08" | "c = 0x09" | "c = 0x0A" | "c = 0x0C" | "c = 0x0D" | "c = 0x22"
    | "c = 0x5C"
    | "c \<noteq> 0x08" "c \<noteq> 0x09" "c \<noteq> 0x0A" "c \<noteq> 0x0C" "c \<noteq> 0x0D" "c \<noteq> 0x22" "c \<noteq> 0x5C"
    by blast
  then show ?thesis
  proof cases
    case 1 then show ?thesis
      by (cases "parseChars t") (simp_all add: quoteCodeUnit_def simpleEscape_def)
  next
    case 2 then show ?thesis
      by (cases "parseChars t") (simp_all add: quoteCodeUnit_def simpleEscape_def)
  next
    case 3 then show ?thesis
      by (cases "parseChars t") (simp_all add: quoteCodeUnit_def simpleEscape_def)
  next
    case 4 then show ?thesis
      by (cases "parseChars t") (simp_all add: quoteCodeUnit_def simpleEscape_def)
  next
    case 5 then show ?thesis
      by (cases "parseChars t") (simp_all add: quoteCodeUnit_def simpleEscape_def)
  next
    case 6 then show ?thesis
      by (cases "parseChars t") (simp_all add: quoteCodeUnit_def simpleEscape_def)
  next
    case 7 then show ?thesis
      by (cases "parseChars t") (simp_all add: quoteCodeUnit_def simpleEscape_def)
  next
    case 8
    show ?thesis
    proof (cases "c < 0x20 \<or> isLeadingSurrogate c \<or> isTrailingSurrogate c")
      case True
      with 8 have "quoteCodeUnit c = UnicodeEscape c" by (simp add: quoteCodeUnit_def)
      then show ?thesis by (simp add: parseChars_UnicodeEscape)
    next
      case False
      with 8 have "quoteCodeUnit c = [c]" by (simp add: quoteCodeUnit_def)
      with 8 False show ?thesis by (cases "parseChars t") simp_all
    qed
  qed
qed

lemma surrogate_plain:
  "isLeadingSurrogate c \<or> isTrailingSurrogate c \<Longrightarrow> c \<noteq> 0x22 \<and> c \<noteq> 0x5C \<and> \<not> c < 0x20"
  unfolding isLeadingSurrogate_def isTrailingSurrogate_def
  by (auto simp: word_le_nat_alt word_less_nat_alt)

lemma parseChars_plain:
  "c \<noteq> 0x22 \<Longrightarrow> c \<noteq> 0x5C \<Longrightarrow> \<not> c < 0x20 \<Longrightarrow>
   parseChars (c # t) =
     (case parseChars t of None \<Rightarrow> None | Some (s, r) \<Rightarrow> Some (c # s, r))"
  by simp

lemma parseChars_quote: "parseChars (0x22 # t) = Some ([], t)"
  by simp

lemma parseChars_quoteChars: "parseChars (quoteChars s @ 0x22 # rest) = Some (s, rest)"
proof (induction s rule: quoteChars.induct)
  case 1
  show ?case by simp
next
  case (2 c)
  show ?case by (simp add: parseChars_quoteCodeUnit parseChars_quote del: parseChars.simps(2))
next
  case (3 c d ds)
  show ?case
  proof (cases "isLeadingSurrogate c \<and> isTrailingSurrogate d")
    case True
    then have q: "quoteChars (c # d # ds) = c # d # quoteChars ds" by simp
    from True surrogate_plain [of c] surrogate_plain [of d]
    have pc: "c \<noteq> 0x22" "c \<noteq> 0x5C" "\<not> c < 0x20" and pd: "d \<noteq> 0x22" "d \<noteq> 0x5C" "\<not> d < 0x20"
      by blast+
    have "parseChars (d # quoteChars ds @ 0x22 # rest) = Some (d # ds, rest)"
      by (simp only: parseChars_plain [OF pd] "3.IH"(1) [OF True] option.case prod.case)
    then have "parseChars (c # d # quoteChars ds @ 0x22 # rest) = Some (c # d # ds, rest)"
      by (simp only: parseChars_plain [OF pc] option.case prod.case)
    with q show ?thesis by (simp only: append_Cons)
  next
    case False
    then have q: "quoteChars (c # d # ds) = quoteCodeUnit c @ quoteChars (d # ds)" by auto
    show ?thesis
      unfolding q using "3.IH"(2) [OF False]
      by (simp add: parseChars_quoteCodeUnit parseChars_quote del: parseChars.simps(2) quoteChars.simps)
  qed
qed

lemma parseValue_quote:
  "parseValue (0x22 # t) =
     (case parseChars t of None \<Rightarrow> None | Some (s, r) \<Rightarrow> Some (JString s, r))"
  by simp

lemma parseValue_QuoteJSONString:
  "parseValue (QuoteJSONString s @ rest) = Some (JString s, rest)"
  by (simp add: QuoteJSONString_def parseValue_quote parseChars_quoteChars
        del: parseValue.simps parseChars.simps)

section \<open>Reading back what \<open>JSON.stringify\<close> writes\<close>

text \<open>
  With a gap of spaces, \<open>parseValue\<close> reads back every value that holds no number and no
  object with a name twice, followed by any rest: the rest is returned as it is. The entries
  of an array and the properties of an object are read one after the other by
  \<open>parseElements\<close> and \<open>parseMembers\<close>, whatever writes the single values, as long
  as each of them is read back.
\<close>

declare parseChars.simps(2) [simp del]
declare parseValue.simps(2) [simp del]
declare parseElements.simps [simp del]
declare parseMembers.simps(2) [simp del]

lemma skipWs_Nil [simp]: "skipWs [] = []"
  by (simp add: skipWs_def)

lemma skipWs_ws: "isJSONWhiteSpace c \<Longrightarrow> skipWs (c # s) = skipWs s"
  by (simp add: skipWs_def)

lemma skipWs_stop: "\<not> isJSONWhiteSpace c \<Longrightarrow> skipWs (c # s) = c # s"
  by (simp add: skipWs_def)

lemma skipWs_append: "\<forall>c\<in>set w. isJSONWhiteSpace c \<Longrightarrow> skipWs (w @ s) = skipWs s"
  by (induction w) (simp_all add: skipWs_ws)

lemma parseNumber_ws: "isJSONWhiteSpace c \<Longrightarrow> parseNumber (c # cs) = None"
  by (auto simp: isJSONWhiteSpace_def parseNumber_def parseInt_def parseDigits_def isDigit_def)

lemma parseValue_ws: "isJSONWhiteSpace c \<Longrightarrow> parseValue (c # cs) = None"
  by (auto simp: parseValue.simps(2) parseNumber_ws isJSONWhiteSpace_def)

lemma parseValue_closing: "c = 0x5D \<or> c = 0x7D \<or> c = 0x2C \<or> c = 0x3A \<Longrightarrow> parseValue (c # cs) = None"
  by (auto simp: parseValue.simps(2) parseNumber_def parseInt_def parseDigits_def isDigit_def)

lemma parseValue_Some_start:
  assumes "parseValue s = Some r"
  shows "skipWs s = s" and "\<exists>c cs. s = c # cs \<and> c \<noteq> 0x5D \<and> c \<noteq> 0x7D"
proof -
  from assms obtain c cs where s: "s = c # cs" by (cases s) auto
  with assms parseValue_ws [of c cs] have "\<not> isJSONWhiteSpace c" by auto
  with s show "skipWs s = s" by (simp add: skipWs_stop)
  from assms s parseValue_closing [of c cs]
  show "\<exists>c cs. s = c # cs \<and> c \<noteq> 0x5D \<and> c \<noteq> 0x7D" by auto
qed

lemma join_Cons_append: "\<exists>z. join sep (a # as) @ t = a @ z"
  by (cases as) auto

lemma CreateDataProperty_fresh:
  "k \<notin> fst ` set acc \<Longrightarrow> CreateDataProperty acc k v = acc @ [(k, v)]"
  by (induction acc) auto

lemma skipWs_newline_indent:
  assumes "\<forall>c\<in>set ind. isJSONWhiteSpace c"
  shows "skipWs (0x0A # ind @ s) = skipWs s"
  using assms by (simp add: skipWs_ws skipWs_append isJSONWhiteSpace_def)

lemma parseElements_join:
  assumes wi: "\<forall>c\<in>set ind. isJSONWhiteSpace c" and wi': "\<forall>c\<in>set ind'. isJSONWhiteSpace c"
    and el: "\<And>x rest. x \<in> set (x0 # xs) \<Longrightarrow> parseValue (S x @ rest) = Some (x, rest)"
  shows "parseElements acc (join (0x2C # 0x0A # ind') (map S (x0 # xs)) @ 0x0A # ind @ 0x5D # rest)
           = Some (JArray (acc @ x0 # xs), rest)"
  using el
proof (induction xs arbitrary: acc x0)
  case Nil
  have p: "parseValue (S x0 @ 0x0A # ind @ 0x5D # rest) = Some (x0, 0x0A # ind @ 0x5D # rest)"
    by (rule Nil) simp
  have s: "skipWs (0x0A # ind @ 0x5D # rest) = 0x5D # rest"
    by (simp add: skipWs_newline_indent [OF wi] skipWs_stop isJSONWhiteSpace_def)
  show ?case
    by (subst parseElements.simps) (simp add: p s)
next
  case (Cons y ys)
  let ?sep = "0x2C # 0x0A # ind'"
  let ?tail = "0x0A # ind @ 0x5D # rest"
  let ?next = "join ?sep (map S (y # ys)) @ ?tail"
  have j: "join ?sep (map S (x0 # y # ys)) @ ?tail = S x0 @ 0x2C # 0x0A # ind' @ ?next"
    by simp
  have p: "parseValue (S x0 @ 0x2C # 0x0A # ind' @ ?next) = Some (x0, 0x2C # 0x0A # ind' @ ?next)"
    by (rule Cons.prems) simp
  have s1: "skipWs (0x2C # 0x0A # ind' @ ?next) = 0x2C # 0x0A # ind' @ ?next"
    by (simp add: skipWs_stop isJSONWhiteSpace_def)
  obtain z where z: "?next = S y @ z"
    using join_Cons_append [of ?sep "S y" "map S ys" ?tail] by auto
  have "parseValue (S y @ z) = Some (y, z)" by (rule Cons.prems) simp
  then have "skipWs (S y @ z) = S y @ z" by (rule parseValue_Some_start(1))
  then have s2: "skipWs (0x0A # ind' @ ?next) = ?next"
    by (simp only: skipWs_newline_indent [OF wi'] z)
  have ih: "parseElements (acc @ [x0]) ?next = Some (JArray ((acc @ [x0]) @ y # ys), rest)"
    by (rule Cons.IH) (simp add: Cons.prems)
  show ?case
    unfolding j
    by (subst parseElements.simps)
       (simp only: p s1 s2 ih option.case prod.case list.case if_True append_assoc append_Cons
          append_Nil refl)
qed

lemma parseMembers_member:
  assumes v: "parseValue (S v @ z) = Some (v, z)"
  shows "parseMembers acc (member S (k, v) @ z) =
     (case skipWs z of
        [] \<Rightarrow> None
      | e # es \<Rightarrow>
          if e = 0x2C then parseMembers (CreateDataProperty acc k v) (skipWs es)
          else if e = 0x7D then Some (JObject (CreateDataProperty acc k v), es)
          else None)"
proof -
  have m: "member S (k, v) @ z = 0x22 # quoteChars k @ 0x22 # (0x3A # 0x20 # S v @ z)"
    by (simp add: member_def QuoteJSONString_def)
  have s1: "skipWs (0x3A # 0x20 # S v @ z) = 0x3A # 0x20 # S v @ z"
    by (simp add: skipWs_stop isJSONWhiteSpace_def)
  have "skipWs (S v @ z) = S v @ z" using v by (rule parseValue_Some_start(1))
  then have s2: "skipWs (0x20 # S v @ z) = S v @ z"
    by (simp add: skipWs_ws isJSONWhiteSpace_def)
  show ?thesis
    unfolding m
    by (subst parseMembers.simps(2))
       (simp only: parseChars_quoteChars s1 s2 v option.case prod.case list.case if_True refl)
qed

lemma parseMembers_join:
  assumes wi: "\<forall>c\<in>set ind. isJSONWhiteSpace c" and wi': "\<forall>c\<in>set ind'. isJSONWhiteSpace c"
    and el: "\<And>kv rest. kv \<in> set (kv0 # kvs) \<Longrightarrow> parseValue (S (snd kv) @ rest) = Some (snd kv, rest)"
    and di: "distinct (map fst (acc @ kv0 # kvs))"
  shows "parseMembers acc (join (0x2C # 0x0A # ind') (map (member S) (kv0 # kvs)) @ 0x0A # ind @ 0x7D # rest)
           = Some (JObject (acc @ kv0 # kvs), rest)"
  using el di
proof (induction kvs arbitrary: acc kv0)
  case Nil
  obtain k v where kv: "kv0 = (k, v)" by (cases kv0)
  have p: "parseValue (S v @ 0x0A # ind @ 0x7D # rest) = Some (v, 0x0A # ind @ 0x7D # rest)"
    using Nil.prems(1) [of kv0] kv by simp
  have s: "skipWs (0x0A # ind @ 0x7D # rest) = 0x7D # rest"
    by (simp add: skipWs_newline_indent [OF wi] skipWs_stop isJSONWhiteSpace_def)
  from Nil.prems(2) kv have "k \<notin> fst ` set acc" by auto
  then have c: "CreateDataProperty acc k v = acc @ [(k, v)]" by (rule CreateDataProperty_fresh)
  show ?case
    using parseMembers_member [of S v "0x0A # ind @ 0x7D # rest" acc k, OF p]
    by (simp add: kv s c)
next
  case (Cons y ys)
  obtain k v where kv: "kv0 = (k, v)" by (cases kv0)
  let ?sep = "0x2C # 0x0A # ind'"
  let ?tail = "0x0A # ind @ 0x7D # rest"
  let ?next = "join ?sep (map (member S) (y # ys)) @ ?tail"
  have j: "join ?sep (map (member S) (kv0 # y # ys)) @ ?tail
             = member S (k, v) @ 0x2C # 0x0A # ind' @ ?next"
    by (simp add: kv)
  have p: "parseValue (S v @ 0x2C # 0x0A # ind' @ ?next) = Some (v, 0x2C # 0x0A # ind' @ ?next)"
    using Cons.prems(1) [of kv0] kv by simp
  have s1: "skipWs (0x2C # 0x0A # ind' @ ?next) = 0x2C # 0x0A # ind' @ ?next"
    by (simp add: skipWs_stop isJSONWhiteSpace_def)
  obtain z where z: "?next = member S y @ z"
    using join_Cons_append [of ?sep "member S y" "map (member S) ys" ?tail] by auto
  have "skipWs (member S y @ z) = member S y @ z"
    by (simp add: member_def QuoteJSONString_def skipWs_stop isJSONWhiteSpace_def)
  then have s2: "skipWs (0x0A # ind' @ ?next) = ?next"
    by (simp only: skipWs_newline_indent [OF wi'] z)
  from Cons.prems(2) kv have "k \<notin> fst ` set acc" by auto
  then have c: "CreateDataProperty acc k v = acc @ [(k, v)]" by (rule CreateDataProperty_fresh)
  have ih: "parseMembers (acc @ [kv0]) ?next = Some (JObject ((acc @ [kv0]) @ y # ys), rest)"
    by (rule Cons.IH) (use Cons.prems in simp_all)
  note pm = parseMembers_member [of S v "0x2C # 0x0A # ind' @ ?next" acc k, OF p]
  show ?case
    unfolding j
    by (simp only: pm s1 s2 c ih [unfolded kv] kv list.case if_True refl append_assoc
          append_Cons append_Nil)
qed

lemma Serialize_JArray:
  "xs \<noteq> [] \<Longrightarrow> gap \<noteq> [] \<Longrightarrow>
   SerializeJSONProperty gap indent (JArray xs) =
     0x5B # 0x0A # (indent @ gap)
       @ join (0x2C # 0x0A # (indent @ gap)) (map (SerializeJSONProperty gap (indent @ gap)) xs)
       @ 0x0A # indent @ [0x5D]"
  by simp

lemma Serialize_JObject:
  "kvs \<noteq> [] \<Longrightarrow> gap \<noteq> [] \<Longrightarrow>
   SerializeJSONProperty gap indent (JObject kvs) =
     0x7B # 0x0A # (indent @ gap)
       @ join (0x2C # 0x0A # (indent @ gap))
           (map (member (SerializeJSONProperty gap (indent @ gap))) kvs)
       @ 0x0A # indent @ [0x7D]"
proof -
  have "(\<lambda>(k, v). QuoteJSONString k @ [0x3A, 0x20] @ SerializeJSONProperty gap (indent @ gap) v)
          = member (SerializeJSONProperty gap (indent @ gap))"
    by (auto simp: member_def fun_eq_iff)
  then show "kvs \<noteq> [] \<Longrightarrow> gap \<noteq> [] \<Longrightarrow> ?thesis" by simp
qed

lemma parseValue_literals:
  "parseValue (js ''null'' @ rest) = Some (JNull, rest)"
  "parseValue (js ''true'' @ rest) = Some (JBool True, rest)"
  "parseValue (js ''false'' @ rest) = Some (JBool False, rest)"
  by (simp_all add: js_def parseValue.simps(2) parseLiteral_def)

lemma parseValue_empty:
  "parseValue (js ''[]'' @ rest) = Some (JArray [], rest)"
  "parseValue (js ''{}'' @ rest) = Some (JObject [], rest)"
  by (simp_all add: js_def parseValue.simps(2) skipWs_stop isJSONWhiteSpace_def)

lemma parseValue_open_bracket:
  "skipWs cs = d # ds \<Longrightarrow> d \<noteq> 0x5D \<Longrightarrow> parseValue (0x5B # cs) = parseElements [] (d # ds)"
  by (simp add: parseValue.simps(2))

lemma parseValue_open_brace:
  "skipWs cs = d # ds \<Longrightarrow> d \<noteq> 0x7D \<Longrightarrow> parseValue (0x7B # cs) = parseMembers [] (d # ds)"
  by (simp add: parseValue.simps(2))

lemma parseValue_array:
  assumes wi: "\<forall>c\<in>set ind. isJSONWhiteSpace c" and wi': "\<forall>c\<in>set ind'. isJSONWhiteSpace c"
    and el: "\<And>x rest. x \<in> set (x0 # xs) \<Longrightarrow> parseValue (S x @ rest) = Some (x, rest)"
  shows "parseValue (0x5B # 0x0A # ind' @ join (0x2C # 0x0A # ind') (map S (x0 # xs))
            @ 0x0A # ind @ 0x5D # rest) = Some (JArray (x0 # xs), rest)"
proof -
  let ?body = "join (0x2C # 0x0A # ind') (map S (x0 # xs)) @ 0x0A # ind @ 0x5D # rest"
  obtain z where z: "?body = S x0 @ z"
    using join_Cons_append [of "0x2C # 0x0A # ind'" "S x0" "map S xs" "0x0A # ind @ 0x5D # rest"]
    by auto
  have p: "parseValue (S x0 @ z) = Some (x0, z)" by (rule el) simp
  from parseValue_Some_start [OF p] obtain d ds
    where d: "S x0 @ z = d # ds" "d \<noteq> 0x5D" and s: "skipWs (S x0 @ z) = S x0 @ z"
    by auto
  from s d have "skipWs (d # ds) = d # ds" by simp
  then have sk: "skipWs (0x0A # ind' @ ?body) = d # ds"
    by (simp only: skipWs_newline_indent [OF wi'] z d)
  have pe: "parseElements [] (d # ds) = Some (JArray (x0 # xs), rest)"
    using parseElements_join [of ind ind' x0 xs S "[]" rest, OF wi wi' el] z d by simp
  show ?thesis
    using parseValue_open_bracket [OF sk d(2)] pe by simp
qed

lemma parseValue_object:
  assumes wi: "\<forall>c\<in>set ind. isJSONWhiteSpace c" and wi': "\<forall>c\<in>set ind'. isJSONWhiteSpace c"
    and el: "\<And>kv rest. kv \<in> set (kv0 # kvs) \<Longrightarrow> parseValue (S (snd kv) @ rest) = Some (snd kv, rest)"
    and di: "distinct (map fst (kv0 # kvs))"
  shows "parseValue (0x7B # 0x0A # ind' @ join (0x2C # 0x0A # ind') (map (member S) (kv0 # kvs))
            @ 0x0A # ind @ 0x7D # rest) = Some (JObject (kv0 # kvs), rest)"
proof -
  let ?body = "join (0x2C # 0x0A # ind') (map (member S) (kv0 # kvs)) @ 0x0A # ind @ 0x7D # rest"
  obtain z where z: "?body = member S kv0 @ z"
    using join_Cons_append [of "0x2C # 0x0A # ind'" "member S kv0" "map (member S) kvs"
        "0x0A # ind @ 0x7D # rest"]
    by auto
  obtain ds where d: "member S kv0 @ z = 0x22 # ds"
    by (simp add: member_def QuoteJSONString_def)
  have sk: "skipWs (0x0A # ind' @ ?body) = 0x22 # ds"
    by (simp only: skipWs_newline_indent [OF wi'] z d) (simp add: skipWs_stop isJSONWhiteSpace_def)
  have pe: "parseMembers [] (0x22 # ds) = Some (JObject (kv0 # kvs), rest)"
    using parseMembers_join [of ind ind' kv0 kvs S "[]" rest, OF wi wi' el] di z d by simp
  have "(0x22 :: cu) \<noteq> 0x7D" by simp
  from parseValue_open_brace [OF sk this] pe show ?thesis by simp
qed

lemma parseValue_Serialize:
  assumes gap: "gap \<noteq> []" "\<forall>c\<in>set gap. isJSONWhiteSpace c"
  shows "plain v \<Longrightarrow> \<forall>c\<in>set indent. isJSONWhiteSpace c \<Longrightarrow>
    parseValue (SerializeJSONProperty gap indent v @ rest) = Some (v, rest)"
proof (induction v arbitrary: indent rest)
  case JNull
  show ?case by (simp add: parseValue_literals)
next
  case (JBool b)
  show ?case by (simp add: parseValue_literals)
next
  case (JNumber lit)
  then show ?case by simp
next
  case (JString s)
  show ?case by (simp add: parseValue_QuoteJSONString)
next
  case (JArray xs)
  show ?case
  proof (cases xs)
    case Nil
    then show ?thesis by (simp add: parseValue_empty)
  next
    case (Cons x0 xs')
    have wi': "\<forall>c\<in>set (indent @ gap). isJSONWhiteSpace c"
      using JArray.prems(2) gap(2) by auto
    have el: "\<And>x rest. x \<in> set (x0 # xs') \<Longrightarrow>
        parseValue (SerializeJSONProperty gap (indent @ gap) x @ rest) = Some (x, rest)"
      using JArray.IH JArray.prems(1) wi' Cons by auto
    have "SerializeJSONProperty gap indent (JArray xs) @ rest =
        0x5B # 0x0A # (indent @ gap)
          @ join (0x2C # 0x0A # (indent @ gap))
              (map (SerializeJSONProperty gap (indent @ gap)) (x0 # xs'))
          @ 0x0A # indent @ 0x5D # rest"
      using Serialize_JArray [of xs gap indent] gap(1) Cons by simp
    then show ?thesis
      using parseValue_array [of indent "indent @ gap" x0 xs'
          "SerializeJSONProperty gap (indent @ gap)" rest, OF JArray.prems(2) wi' el] Cons
      by simp
  qed
next
  case (JObject kvs)
  show ?case
  proof (cases kvs)
    case Nil
    then show ?thesis by (simp add: parseValue_empty)
  next
    case (Cons kv0 kvs')
    have wi': "\<forall>c\<in>set (indent @ gap). isJSONWhiteSpace c"
      using JObject.prems(2) gap(2) by auto
    have el: "\<And>kv rest. kv \<in> set (kv0 # kvs') \<Longrightarrow>
        parseValue (SerializeJSONProperty gap (indent @ gap) (snd kv) @ rest) = Some (snd kv, rest)"
    proof -
      fix kv rest
      assume m: "kv \<in> set (kv0 # kvs')"
      then have "plain (snd kv)" using JObject.prems(1) Cons by auto
      moreover have "snd kv \<in> Basic_BNFs.snds kv" by (cases kv) simp
      ultimately show "parseValue (SerializeJSONProperty gap (indent @ gap) (snd kv) @ rest)
          = Some (snd kv, rest)"
        using JObject.IH [of kv "snd kv" "indent @ gap" rest] m wi' Cons by simp
    qed
    have di: "distinct (map fst (kv0 # kvs'))" using JObject.prems(1) Cons by simp
    have "SerializeJSONProperty gap indent (JObject kvs) @ rest =
        0x7B # 0x0A # (indent @ gap)
          @ join (0x2C # 0x0A # (indent @ gap))
              (map (member (SerializeJSONProperty gap (indent @ gap))) (kv0 # kvs'))
          @ 0x0A # indent @ 0x7D # rest"
      using Serialize_JObject [of kvs gap indent] gap(1) Cons by simp
    then show ?thesis
      using parseValue_object [of indent "indent @ gap" kv0 kvs'
          "SerializeJSONProperty gap (indent @ gap)" rest, OF JObject.prems(2) wi' el di] Cons
      by simp
  qed
qed

section \<open>The generated JSON\<close>

lemma JSON_parse_stringify:
  assumes "plain v"
  shows "JSON_parse (JSON_stringify v 2) = Inr v"
proof -
  let ?gap = "replicate (min 10 2) (0x20 :: cu)"
  have gap: "?gap \<noteq> []" "\<forall>c\<in>set ?gap. isJSONWhiteSpace c"
    by (simp_all add: isJSONWhiteSpace_def)
  have p: "parseValue (SerializeJSONProperty ?gap [] v @ []) = Some (v, [])"
    by (rule parseValue_Serialize [OF gap assms]) simp
  then have p': "parseValue (SerializeJSONProperty ?gap [] v) = Some (v, [])" by simp
  from parseValue_Some_start(1) [OF p']
  have "skipWs (SerializeJSONProperty ?gap [] v) = SerializeJSONProperty ?gap [] v" .
  with p' show ?thesis by (simp add: JSON_parse_def JSON_stringify_def)
qed

lemma JSON_stringify_not_empty: "plain v \<Longrightarrow> JSON_stringify v 2 \<noteq> []"
proof
  assume "plain v" and e: "JSON_stringify v 2 = []"
  from JSON_parse_stringify [OF \<open>plain v\<close>] e show False
    by (simp add: JSON_parse_def)
qed

lemma plain_strings: "\<forall>x\<in>set (map JString xs). plain x"
  by simp

lemma plain_jsonObject: "plain (jsonObject fs)"
  by (simp add: jsonObject_def js_def)

lemma JSON_parse_generated:
  "JSON_parse (JSON_stringify (jsonObject fs) 2) = Inr (jsonObject fs)"
  by (rule JSON_parse_stringify [OF plain_jsonObject])

lemma selfTest_jsonObject: "selfTest (JSON_stringify (jsonObject fs) 2) = Inr Valid"
  unfolding selfTest_def JSON_parse_generated
  by (simp add: jsonObject_def requiredKeys_def js_in_def js_def)

text \<open>
  Claim C1. For every form state, the text that generating JSON stores, parsed again and
  checked by the self test, gives the status valid.
\<close>

theorem generated_json_is_valid:
  "validationStatus (handleSelfTest (handleGenerateJson st)) = Valid"
  using JSON_stringify_not_empty [OF plain_jsonObject, of "formState st"]
  by (simp add: handleSelfTest_def handleGenerateJson_def selfTest_jsonObject)

theorem generated_json_is_valid_witness:
  "validationStatus (handleSelfTest (handleGenerateJson (initialApp None))) = Valid"
  by (rule generated_json_is_valid)

text \<open>
  Claim C2. For every form state the built object has the seven properties \<open>title\<close>,
  \<open>description\<close>, \<open>style\<close>, \<open>mood\<close>, \<open>camera\<close>, \<open>soundscape\<close> and
  \<open>visual_effects\<close>, in this order: the title is the idea, the description is the
  template around the idea, the style is \<open>ASMR\<close>, the mood is the list of moods in its
  order, the camera is an object with the movement, the angle and the focus, the soundscape
  is an object with the primary sound, the list of secondary sounds and the quality, and the
  visual effects are the list of visual effects. Generating stores the serialisation of this
  object, which parses back to it, and changes neither the form state nor anything outside
  the state.
\<close>

theorem builder_fields:
  "Get (jsonObject fs) (js ''title'') = Inr (Some (JString (idea fs)))
   \<and> Get (jsonObject fs) (js ''description'')
       = Inr (Some (JString (js ''An ASMR-style video about: '' @ idea fs @ js ''.'')))
   \<and> Get (jsonObject fs) (js ''style'') = Inr (Some (JString (js ''ASMR'')))
   \<and> Get (jsonObject fs) (js ''mood'') = Inr (Some (JArray (map JString (moods fs))))
   \<and> Get (jsonObject fs) (js ''camera'')
       = Inr (Some (JObject [(js ''movement'', JString (cameraMovement fs)),
                             (js ''angle'', JString (cameraAngle fs)),
                             (js ''focus'', JString (cameraFocus fs))]))
   \<and> Get (jsonObject fs) (js ''soundscape'')
       = Inr (Some (JObject [(js ''primary'', JString (soundscapePrimary fs)),
                             (js ''secondary'', JArray (map JString (soundscapeSecondary fs))),
                             (js ''quality'', JString (soundscapeQuality fs))]))
   \<and> Get (jsonObject fs) (js ''visual_effects'')
       = Inr (Some (JArray (map JString (visualEffects fs))))
   \<and> OwnPropertyKeys (jsonObject fs)
       = Some [js ''title'', js ''description'', js ''style'', js ''mood'', js ''camera'',
               js ''soundscape'', js ''visual_effects'']
   \<and> generatedJson (handleGenerateJson st) = Some (JSON_stringify (jsonObject (formState st)) 2)
   \<and> JSON_parse (JSON_stringify (jsonObject (formState st)) 2) = Inr (jsonObject (formState st))
   \<and> formState (handleGenerateJson st) = formState st
   \<and> effects (handleGenerateJson st) = effects st
   \<and> copyButtonText (handleGenerateJson st) = copyButtonText st
   \<and> theme (handleGenerateJson st) = theme st"
  by (simp add: JSON_parse_generated handleGenerateJson_def) (simp add: jsonObject_def js_def)

text \<open>
  The example of the idea "forest rain at night" with the preset Forest Rain.
\<close>

theorem builder_fields_witness:
  "Get (jsonObject (formState (handleApplyPreset (PRESETS ! 0)
          (handleInputChange (js ''forest rain at night'') (initialApp None)))))
       (js ''title'')
     = Inr (Some (JString (js ''forest rain at night'')))
   \<and> Get (jsonObject (formState (handleApplyPreset (PRESETS ! 0)
          (handleInputChange (js ''forest rain at night'') (initialApp None)))))
       (js ''mood'')
     = Inr (Some (JArray [JString (js ''Calm''), JString (js ''Melancholy'')]))
   \<and> Get (jsonObject (formState (handleApplyPreset (PRESETS ! 0)
          (handleInputChange (js ''forest rain at night'') (initialApp None)))))
       (js ''camera'')
     = Inr (Some (JObject [(js ''movement'', JString (js ''Slow Zoom In'')),
                           (js ''angle'', JString (js ''Low Angle'')),
                           (js ''focus'', JString (js ''Soft Focus''))]))
   \<and> Get (jsonObject (formState (handleApplyPreset (PRESETS ! 0)
          (handleInputChange (js ''forest rain at night'') (initialApp None)))))
       (js ''soundscape'')
     = Inr (Some (JObject [(js ''primary'', JString (js ''Rain'')),
                           (js ''secondary'',
                            JArray [JString (js ''Thunder''), JString (js ''Wind'')]),
                           (js ''quality'', JString (js ''High-Fidelity (Binaural)''))]))"
proof -
  have f: "formState (handleApplyPreset (PRESETS ! 0)
          (handleInputChange (js ''forest rain at night'') (initialApp None)))
     = \<lparr>idea = js ''forest rain at night'',
        moods = [js ''Calm'', js ''Melancholy''],
        cameraMovement = js ''Slow Zoom In'',
        cameraAngle = js ''Low Angle'',
        cameraFocus = js ''Soft Focus'',
        soundscapePrimary = js ''Rain'',
        soundscapeSecondary = [js ''Thunder'', js ''Wind''],
        soundscapeQuality = js ''High-Fidelity (Binaural)'',
        visualEffects = [js ''Fog'', js ''Muted Tones'']\<rparr>"
    by (simp add: PRESETS_def handleApplyPreset_def applySettings_def handleInputChange_def
          initialApp_def initialState_def)
  show ?thesis
    using builder_fields [of "formState (handleApplyPreset (PRESETS ! 0)
          (handleInputChange (js ''forest rain at night'') (initialApp None)))"]
    unfolding f by simp
qed

section \<open>The self test\<close>

lemma isDigit_decimalDigit: "k < 10 \<Longrightarrow> isDigit (decimalDigit k)"
  unfolding isDigit_def decimalDigit_def
  by (simp add: word_le_nat_alt unat_word_ariths unat_of_nat)

lemma ToString_nat_digits: "ToString_nat n \<noteq> [] \<and> (\<forall>c\<in>set (ToString_nat n). isDigit c)"
proof (induction n rule: ToString_nat.induct)
  case (1 n)
  show ?case
  proof (cases "n < 10")
    case True
    then have "ToString_nat n = [decimalDigit n]" by (subst ToString_nat.simps) simp
    with True show ?thesis by (simp add: isDigit_decimalDigit)
  next
    case False
    then have "ToString_nat n = ToString_nat (n div 10) @ [decimalDigit (n mod 10)]"
      by (subst ToString_nat.simps) simp
    moreover have "n mod 10 < 10" by simp
    ultimately show ?thesis using False "1.IH" by (simp add: isDigit_decimalDigit)
  qed
qed

lemma array_keys:
  assumes "key \<in> set (map ToString_nat [0..<n] @ [js ''length''])"
  shows "key = js ''length'' \<or> (key \<noteq> [] \<and> isDigit (hd key))"
proof -
  from assms consider "key = js ''length''" | i where "key = ToString_nat i" by auto
  then show ?thesis
  proof cases
    case 1
    then show ?thesis by simp
  next
    case 2
    with ToString_nat_digits [of i] show ?thesis by (cases "ToString_nat i") auto
  qed
qed

lemma not_array_key:
  "key \<noteq> js ''length'' \<Longrightarrow> key \<noteq> [] \<Longrightarrow> \<not> isDigit (hd key) \<Longrightarrow>
     key \<notin> set (map ToString_nat [0..<n] @ [js ''length''])"
  using array_keys [of key n] by blast

lemma tested_keys_not_array_keys:
  "js ''title'' \<notin> set (map ToString_nat [0..<n] @ [js ''length''])"
  "js ''movement'' \<notin> set (map ToString_nat [0..<n] @ [js ''length''])"
  "js ''primary'' \<notin> set (map ToString_nat [0..<n] @ [js ''length''])"
  by (rule not_array_key; simp add: js_def isDigit_def)+

lemma every_js_in:
  "every (\<lambda>key. js_in key (Some x)) (k # ks) =
     (case OwnPropertyKeys x of
        None \<Rightarrow> Inl TypeError
      | Some own \<Rightarrow> Inr (\<forall>key\<in>set (k # ks). key \<in> set own))"
proof (cases "OwnPropertyKeys x")
  case None
  then show ?thesis by (simp add: js_in_def)
next
  case (Some own)
  have "every (\<lambda>key. js_in key (Some x)) ks' = Inr (\<forall>key\<in>set ks'. key \<in> set own)" for ks'
    by (induction ks') (simp_all add: js_in_def Some)
  then show ?thesis by (simp add: Some)
qed

lemma three_js_in:
  "and_then (and_then (js_in a v) (js_in b v)) (js_in c v) =
     (case v of
        None \<Rightarrow> Inl TypeError
      | Some x \<Rightarrow>
          (case OwnPropertyKeys x of
             None \<Rightarrow> Inl TypeError
           | Some own \<Rightarrow> Inr (a \<in> set own \<and> b \<in> set own \<and> c \<in> set own)))"
  by (cases v; simp add: js_in_def split: option.splits) (cases "a \<in> set (the (OwnPropertyKeys (the v)))"; cases "b \<in> set (the (OwnPropertyKeys (the v)))"; auto)


lemma every_js_in_True:
  assumes "\<And>n. k \<notin> set (map ToString_nat [0..<n] @ [js ''length''])"
  shows "every (\<lambda>key. js_in key (Some x)) (k # ks) = Inr True \<longleftrightarrow>
     (\<exists>kvs. x = JObject kvs \<and> (\<forall>key\<in>set (k # ks). key \<in> fst ` set kvs))"
  using assms [of "length xs" for xs]
  by (cases x) (auto simp: every_js_in simp del: every.simps)

lemma three_js_in_True:
  assumes "\<And>n. a \<notin> set (map ToString_nat [0..<n] @ [js ''length''])"
  shows "and_then (and_then (js_in a v) (js_in b v)) (js_in c v) = Inr True \<longleftrightarrow>
     (\<exists>kvs. v = Some (JObject kvs) \<and> a \<in> fst ` set kvs \<and> b \<in> fst ` set kvs
            \<and> c \<in> fst ` set kvs)"
proof (cases v)
  case None
  then show ?thesis by (simp add: three_js_in)
next
  case (Some x)
  with assms [of "length xs" for xs] show ?thesis
    by (cases x) (auto simp: three_js_in)
qed

lemma selfTest_Valid:
  "selfTest jsonText = Inr Valid \<longleftrightarrow>
     (\<exists>parsed camera soundscape.
        JSON_parse jsonText = Inr parsed
        \<and> every (\<lambda>key. js_in key (Some parsed)) requiredKeys = Inr True
        \<and> Get parsed (js ''camera'') = Inr camera
        \<and> and_then (and_then (js_in (js ''movement'') camera) (js_in (js ''angle'') camera))
              (js_in (js ''focus'') camera) = Inr True
        \<and> Get parsed (js ''soundscape'') = Inr soundscape
        \<and> and_then (and_then (js_in (js ''primary'') soundscape)
               (js_in (js ''secondary'') soundscape))
              (js_in (js ''quality'') soundscape) = Inr True)"
  unfolding selfTest_def
  by (auto split: sum.splits)

lemma selfTest_status: "selfTest jsonText \<noteq> Inr Unchecked"
  unfolding selfTest_def
  by (auto split: sum.splits)

lemma selfTest_Valid_iff:
  "selfTest jsonText = Inr Valid \<longleftrightarrow>
     (\<exists>top cam snd.
        JSON_parse jsonText = Inr (JObject top)
        \<and> (\<forall>key\<in>set requiredKeys. key \<in> fst ` set top)
        \<and> map_of top (js ''camera'') = Some (JObject cam)
        \<and> js ''movement'' \<in> fst ` set cam \<and> js ''angle'' \<in> fst ` set cam
        \<and> js ''focus'' \<in> fst ` set cam
        \<and> map_of top (js ''soundscape'') = Some (JObject snd)
        \<and> js ''primary'' \<in> fst ` set snd \<and> js ''secondary'' \<in> fst ` set snd
        \<and> js ''quality'' \<in> fst ` set snd)"
proof -
  have r: "requiredKeys = js ''title'' # tl requiredKeys" by (simp add: requiredKeys_def)
  have e: "every (\<lambda>key. js_in key (Some x)) requiredKeys = Inr True \<longleftrightarrow>
     (\<exists>kvs. x = JObject kvs \<and> (\<forall>key\<in>set requiredKeys. key \<in> fst ` set kvs))" for x
    using every_js_in_True [of "js ''title''" x "tl requiredKeys", OF tested_keys_not_array_keys(1)]
    by (simp only: r [symmetric])
  show ?thesis
    unfolding selfTest_Valid e
      three_js_in_True [of "js ''movement''", OF tested_keys_not_array_keys(2)]
      three_js_in_True [of "js ''primary''", OF tested_keys_not_array_keys(3)]
    apply simp
    apply (rule iffI)
     apply (elim exE conjE)
     apply simp
    apply (elim exE conjE)
    apply simp
    done
qed

text \<open>
  Claim C3 is stated for every text. The guard \<open>if (!generatedJson) return\<close> holds for
  the empty string as it does for \<open>null\<close>: on the empty string, which is not JSON, the
  self test returns without setting the status to invalid, and the status stays what it was.
\<close>

theorem self_test_empty_text:
  "JSON_parse [] = Inl SyntaxError
   \<and> validationStatus (handleSelfTest ((initialApp None)\<lparr>generatedJson := Some []\<rparr>)) = Unchecked
   \<and> validationStatus (handleSelfTest ((initialApp None)\<lparr>generatedJson := Some []\<rparr>)) \<noteq> Invalid
   \<and> validationStatus
        (handleSelfTest ((initialApp None)\<lparr>generatedJson := Some [], validationStatus := Valid\<rparr>))
       = Valid"
  by (simp add: JSON_parse_def handleSelfTest_def initialApp_def)

text \<open>
  Claim C3, amended. On the empty string the self test returns at the guard and leaves the
  whole state, the status included, as it was. For every text that is not empty, the self
  test sets the status to valid if and only if the text parses as JSON, to an object that
  has the seven required keys, whose \<open>camera\<close> is an object with the keys \<open>movement\<close>,
  \<open>angle\<close> and \<open>focus\<close>, and whose \<open>soundscape\<close> is an object with the keys
  \<open>primary\<close>, \<open>secondary\<close> and \<open>quality\<close>. On every other text that is not empty,
  malformed text included, it sets the status to invalid. Nothing else in the state changes,
  and nothing is thrown to the caller.
\<close>

theorem self_test_status:
  "(generatedJson st = Some [] \<longrightarrow> handleSelfTest st = st)
   \<and> (jsonText \<noteq> [] \<longrightarrow>
     (validationStatus (handleSelfTest (st\<lparr>generatedJson := Some jsonText\<rparr>)) = Valid \<longleftrightarrow>
        (\<exists>top cam snd.
           JSON_parse jsonText = Inr (JObject top)
           \<and> (\<forall>key\<in>set requiredKeys. key \<in> fst ` set top)
           \<and> map_of top (js ''camera'') = Some (JObject cam)
           \<and> js ''movement'' \<in> fst ` set cam \<and> js ''angle'' \<in> fst ` set cam
           \<and> js ''focus'' \<in> fst ` set cam
           \<and> map_of top (js ''soundscape'') = Some (JObject snd)
           \<and> js ''primary'' \<in> fst ` set snd \<and> js ''secondary'' \<in> fst ` set snd
           \<and> js ''quality'' \<in> fst ` set snd))
     \<and> (validationStatus (handleSelfTest (st\<lparr>generatedJson := Some jsonText\<rparr>)) = Valid
          \<or> validationStatus (handleSelfTest (st\<lparr>generatedJson := Some jsonText\<rparr>)) = Invalid)
     \<and> handleSelfTest (st\<lparr>generatedJson := Some jsonText\<rparr>)
          = st\<lparr>generatedJson := Some jsonText,
               validationStatus :=
                 validationStatus (handleSelfTest (st\<lparr>generatedJson := Some jsonText\<rparr>))\<rparr>)"
proof (rule conjI)
  show "generatedJson st = Some [] \<longrightarrow> handleSelfTest st = st"
    by (simp add: handleSelfTest_def)
next
  let ?after = "handleSelfTest (st\<lparr>generatedJson := Some jsonText\<rparr>)"
  let ?status = "case selfTest jsonText of Inl e \<Rightarrow> Invalid | Inr status \<Rightarrow> status"
  show "jsonText \<noteq> [] \<longrightarrow>
     (validationStatus ?after = Valid \<longleftrightarrow>
        (\<exists>top cam snd.
           JSON_parse jsonText = Inr (JObject top)
           \<and> (\<forall>key\<in>set requiredKeys. key \<in> fst ` set top)
           \<and> map_of top (js ''camera'') = Some (JObject cam)
           \<and> js ''movement'' \<in> fst ` set cam \<and> js ''angle'' \<in> fst ` set cam
           \<and> js ''focus'' \<in> fst ` set cam
           \<and> map_of top (js ''soundscape'') = Some (JObject snd)
           \<and> js ''primary'' \<in> fst ` set snd \<and> js ''secondary'' \<in> fst ` set snd
           \<and> js ''quality'' \<in> fst ` set snd))
     \<and> (validationStatus ?after = Valid \<or> validationStatus ?after = Invalid)
     \<and> ?after = st\<lparr>generatedJson := Some jsonText, validationStatus := validationStatus ?after\<rparr>"
  proof (rule impI)
    assume t: "jsonText \<noteq> []"
    have v: "validationStatus ?after = ?status"
      using t by (simp add: handleSelfTest_def)
    have a: "?status = Valid \<longleftrightarrow> selfTest jsonText = Inr Valid"
      by (cases "selfTest jsonText") simp_all
    have b: "?status = Valid \<or> ?status = Invalid"
    proof (cases "selfTest jsonText")
      case (Inl e)
      then show ?thesis by simp
    next
      case (Inr status)
      with selfTest_status [of jsonText] show ?thesis by (cases status) simp_all
    qed
    have c: "?after
        = st\<lparr>generatedJson := Some jsonText, validationStatus := validationStatus ?after\<rparr>"
      using t by (simp add: handleSelfTest_def)
    from b c [unfolded v] show
     "(validationStatus ?after = Valid \<longleftrightarrow>
        (\<exists>top cam snd.
           JSON_parse jsonText = Inr (JObject top)
           \<and> (\<forall>key\<in>set requiredKeys. key \<in> fst ` set top)
           \<and> map_of top (js ''camera'') = Some (JObject cam)
           \<and> js ''movement'' \<in> fst ` set cam \<and> js ''angle'' \<in> fst ` set cam
           \<and> js ''focus'' \<in> fst ` set cam
           \<and> map_of top (js ''soundscape'') = Some (JObject snd)
           \<and> js ''primary'' \<in> fst ` set snd \<and> js ''secondary'' \<in> fst ` set snd
           \<and> js ''quality'' \<in> fst ` set snd))
     \<and> (validationStatus ?after = Valid \<or> validationStatus ?after = Invalid)
     \<and> ?after = st\<lparr>generatedJson := Some jsonText, validationStatus := validationStatus ?after\<rparr>"
      unfolding v a selfTest_Valid_iff by blast
  qed
qed

lemma truncated_text: "JSON_parse (js ''{\"title\": \"rain'') = Inl SyntaxError"
  by (simp add: JSON_parse_def js_def skipWs_def isJSONWhiteSpace_def parseValue.simps
        parseMembers.simps parseChars.simps)

theorem self_test_status_witness:
  "generatedJson ((initialApp None)\<lparr>generatedJson := Some [], validationStatus := Valid\<rparr>)
     = Some []
   \<and> handleSelfTest ((initialApp None)\<lparr>generatedJson := Some [], validationStatus := Valid\<rparr>)
       = (initialApp None)\<lparr>generatedJson := Some [], validationStatus := Valid\<rparr>
   \<and> js ''{\"title\": \"rain'' \<noteq> []
   \<and> validationStatus
        (handleSelfTest ((initialApp None)\<lparr>generatedJson := Some (js ''{\"title\": \"rain'')\<rparr>))
       = Invalid"
proof -
  have e: "generatedJson ((initialApp None)\<lparr>generatedJson := Some [], validationStatus := Valid\<rparr>)
      = Some []"
    by simp
  have ne: "js ''{\"title\": \"rain'' \<noteq> []" by (simp add: js_def)
  note s = self_test_status
    [of "(initialApp None)\<lparr>generatedJson := Some [], validationStatus := Valid\<rparr>" "[]",
      THEN conjunct1, rule_format, OF e]
  note t = self_test_status [of "initialApp None" "js ''{\"title\": \"rain''",
      THEN conjunct2, rule_format, OF ne]
  from t have "validationStatus
        (handleSelfTest ((initialApp None)\<lparr>generatedJson := Some (js ''{\"title\": \"rain'')\<rparr>))
       \<noteq> Valid"
    by (simp only: truncated_text) simp
  with t ne e s show ?thesis by blast
qed

section \<open>Toggling an entry of a multi-valued field\<close>

lemma newSelection_absent: "item \<notin> set xs \<Longrightarrow> newSelection item xs = xs @ [item]"
  by (simp add: newSelection_def)

lemma newSelection_present:
  "item \<in> set xs \<Longrightarrow> newSelection item xs = filter (\<lambda>i. i \<noteq> item) xs"
  by (simp add: newSelection_def)

lemma getField_setField: "getField field (setField field v fs) = v"
  by (cases field) simp_all

lemma getField_toggleMultiSelect:
  "getField field (formState (toggleMultiSelect item field st)) =
     newSelection item (getField field (formState st))"
  by (simp add: toggleMultiSelect_def getField_setField)

lemma filter_neq_removeAll: "filter (\<lambda>i. i \<noteq> item) xs = removeAll item xs"
  by (induction xs) auto

lemma count_list_filter_neq:
  "j \<noteq> item \<Longrightarrow> count_list (filter (\<lambda>i. i \<noteq> item) xs) j = count_list xs j"
  by (induction xs) auto

lemma newSelection_twice:
  "newSelection item (newSelection item xs) =
     (if item \<in> set xs then filter (\<lambda>i. i \<noteq> item) xs @ [item] else xs)"
  by (auto simp: newSelection_def filter_id_conv)

lemmas app_defs = initialApp_def initialState_def handleApplyPreset_def applySettings_def
  PRESETS_def toggleMultiSelect_def newSelection_def js_def

text \<open>
  Claim C9. For each of the three multi-valued fields and every item: toggling an item that
  is not in the field's list appends it at the end; toggling an item that is in the list
  removes every occurrence of it and keeps the other entries, each as often as before and in
  their order.
\<close>

theorem toggle_appends_or_removes:
  "let before = getField field (formState st);
       after = getField field (formState (toggleMultiSelect item field st))
   in (item \<notin> set before \<longrightarrow> after = before @ [item]) \<and>
      (item \<in> set before \<longrightarrow>
         after = removeAll item before \<and> item \<notin> set after \<and> subseq after before \<and>
         (\<forall>j. j \<noteq> item \<longrightarrow> count_list after j = count_list before j))"
  by (simp add: Let_def getField_toggleMultiSelect newSelection_absent newSelection_present
        filter_neq_removeAll [symmetric] count_list_filter_neq)

theorem toggle_appends_or_removes_witness:
  "js ''Calm'' \<in> set (getField Moods (formState (handleApplyPreset (PRESETS ! 2) (initialApp None))))
   \<and> getField Moods (formState (toggleMultiSelect (js ''Calm'') Moods
         (handleApplyPreset (PRESETS ! 2) (initialApp None)))) = [js ''Cozy'']
   \<and> js ''Dreamy'' \<notin> set (getField Moods (formState (handleApplyPreset (PRESETS ! 2) (initialApp None))))
   \<and> getField Moods (formState (toggleMultiSelect (js ''Dreamy'') Moods
         (handleApplyPreset (PRESETS ! 2) (initialApp None))))
       = [js ''Calm'', js ''Cozy'', js ''Dreamy'']"
  using toggle_appends_or_removes [where item = "js ''Calm''" and field = Moods
          and st = "handleApplyPreset (PRESETS ! 2) (initialApp None)"]
        toggle_appends_or_removes [where item = "js ''Dreamy''" and field = Moods
          and st = "handleApplyPreset (PRESETS ! 2) (initialApp None)"]
  by (simp add: app_defs Let_def)

text \<open>
  Claim C5 says that toggling an item twice gives back the field's prior contents. The field
  is a list, whose order is the order of the generated \<open>mood\<close>, \<open>secondary\<close> and
  \<open>visual_effects\<close> arrays, and the second toggle appends the item at the end: an item that
  was selected before moves to the last place. After the preset Late Night Study the moods
  are Calm, Cozy; toggling Calm twice gives Cozy, Calm.
\<close>

theorem toggle_twice_reorders:
  "getField Moods (formState (handleApplyPreset (PRESETS ! 2) (initialApp None)))
     = [js ''Calm'', js ''Cozy'']
   \<and> getField Moods (formState (toggleMultiSelect (js ''Calm'') Moods
         (toggleMultiSelect (js ''Calm'') Moods
            (handleApplyPreset (PRESETS ! 2) (initialApp None)))))
     = [js ''Cozy'', js ''Calm'']
   \<and> getField Moods (formState (toggleMultiSelect (js ''Calm'') Moods
         (toggleMultiSelect (js ''Calm'') Moods
            (handleApplyPreset (PRESETS ! 2) (initialApp None)))))
     \<noteq> getField Moods (formState (handleApplyPreset (PRESETS ! 2) (initialApp None)))"
  by (simp add: app_defs)

text \<open>
  Claim C5, amended. Toggling an item twice leaves the field with the same set of entries.
  When the item was not in the list, the list is the one before; when it was, the list is
  the one before without the item, followed by the item.
\<close>

theorem toggle_twice:
  "let before = getField field (formState st);
       after = getField field
                 (formState (toggleMultiSelect item field (toggleMultiSelect item field st)))
   in set after = set before \<and>
      (item \<notin> set before \<longrightarrow> after = before) \<and>
      (item \<in> set before \<longrightarrow> after = filter (\<lambda>i. i \<noteq> item) before @ [item])"
  by (auto simp: Let_def getField_toggleMultiSelect newSelection_twice)


theorem toggle_twice_witness:
  "js ''Calm'' \<in> set (getField Moods (formState (handleApplyPreset (PRESETS ! 2) (initialApp None))))
   \<and> getField Moods (formState (toggleMultiSelect (js ''Calm'') Moods
         (toggleMultiSelect (js ''Calm'') Moods
            (handleApplyPreset (PRESETS ! 2) (initialApp None)))))
     = [js ''Cozy'', js ''Calm'']
   \<and> js ''Dreamy'' \<notin> set (getField Moods (formState (handleApplyPreset (PRESETS ! 2) (initialApp None))))
   \<and> getField Moods (formState (toggleMultiSelect (js ''Dreamy'') Moods
         (toggleMultiSelect (js ''Dreamy'') Moods
            (handleApplyPreset (PRESETS ! 2) (initialApp None)))))
     = [js ''Calm'', js ''Cozy'']"
  using toggle_twice [where item = "js ''Calm''" and field = Moods
          and st = "handleApplyPreset (PRESETS ! 2) (initialApp None)"]
        toggle_twice [where item = "js ''Dreamy''" and field = Moods
          and st = "handleApplyPreset (PRESETS ! 2) (initialApp None)"]
  by (simp add: app_defs Let_def)

section \<open>Reset\<close>

text \<open>
  Claim C7. From any state, reset sets the form state to the defaults (empty idea, empty
  moods, secondary sounds and visual effects, the first entry of each option list), the
  generated JSON to \<open>null\<close> and the validation status to unchecked; the rest of the state
  stays as it is.
\<close>

theorem reset_defaults:
  "formState (handleReset st) =
     \<lparr>idea = [], moods = [], cameraMovement = js ''Static'', cameraAngle = js ''Eye-level'',
      cameraFocus = js ''Soft Focus'', soundscapePrimary = js ''Rain'',
      soundscapeSecondary = [], soundscapeQuality = js ''High-Fidelity (Binaural)'',
      visualEffects = []\<rparr>
   \<and> cameraMovement (formState (handleReset st)) = hd CAMERA_MOVEMENTS
   \<and> cameraAngle (formState (handleReset st)) = hd CAMERA_ANGLES
   \<and> cameraFocus (formState (handleReset st)) = hd CAMERA_FOCUS
   \<and> soundscapePrimary (formState (handleReset st)) = hd PRIMARY_SOUNDS
   \<and> soundscapeQuality (formState (handleReset st)) = hd SOUND_QUALITIES
   \<and> formState (handleReset st) = formState (initialApp stored)
   \<and> generatedJson (handleReset st) = None
   \<and> validationStatus (handleReset st) = Unchecked
   \<and> copyButtonText (handleReset st) = copyButtonText st
   \<and> theme (handleReset st) = theme st
   \<and> effects (handleReset st) = effects st"
  by (simp add: handleReset_def initialState_def initialApp_def CAMERA_MOVEMENTS_def
        CAMERA_ANGLES_def CAMERA_FOCUS_def PRIMARY_SOUNDS_def SOUND_QUALITIES_def)

section \<open>Copy, download and self test without generated JSON\<close>

text \<open>
  Claim C10. When the generated JSON is \<open>null\<close>, copy, download and self test return the
  state they were given: nothing is written to the clipboard, nothing is downloaded, and the
  validation status stays what it was.
\<close>

theorem no_generated_json_no_op:
  "generatedJson st = None \<Longrightarrow>
     handleCopyJson st = st \<and> handleDownloadJson toLowerCase st = st \<and> handleSelfTest st = st"
  by (simp add: handleCopyJson_def handleDownloadJson_def handleSelfTest_def)

theorem no_generated_json_no_op_witness:
  "generatedJson (initialApp None) = None
   \<and> handleCopyJson (initialApp None) = initialApp None
   \<and> handleDownloadJson id (initialApp None) = initialApp None
   \<and> handleSelfTest (initialApp None) = initialApp None
   \<and> validationStatus (handleSelfTest (initialApp None)) = Unchecked
   \<and> effects (handleCopyJson (initialApp None)) = []"
  using no_generated_json_no_op [where st = "initialApp None" and toLowerCase = id]
  by (simp add: initialApp_def)


section \<open>Presets\<close>

lemma spread_Some: "s = Some v \<Longrightarrow> spread p s = v"
  by simp

lemma presets_leave_idea: "preset \<in> set PRESETS \<Longrightarrow> idea (settings preset) = None"
  by (auto simp: PRESETS_def)

text \<open>
  Claim C4. Applying a preset gives a form state in which every field that the preset's
  settings name has the preset's value and every other field is as before. No preset of
  the table names the idea, which is as before.
\<close>

theorem preset_overwrites_named_fields:
  "let s = settings preset; prev = formState st; new = formState (handleApplyPreset preset st)
   in ((\<forall>v. idea s = Some v \<longrightarrow> idea new = v) \<and> (idea s = None \<longrightarrow> idea new = idea prev))
    \<and> ((\<forall>v. moods s = Some v \<longrightarrow> moods new = v) \<and> (moods s = None \<longrightarrow> moods new = moods prev))
    \<and> ((\<forall>v. cameraMovement s = Some v \<longrightarrow> cameraMovement new = v)
        \<and> (cameraMovement s = None \<longrightarrow> cameraMovement new = cameraMovement prev))
    \<and> ((\<forall>v. cameraAngle s = Some v \<longrightarrow> cameraAngle new = v)
        \<and> (cameraAngle s = None \<longrightarrow> cameraAngle new = cameraAngle prev))
    \<and> ((\<forall>v. cameraFocus s = Some v \<longrightarrow> cameraFocus new = v)
        \<and> (cameraFocus s = None \<longrightarrow> cameraFocus new = cameraFocus prev))
    \<and> ((\<forall>v. soundscapePrimary s = Some v \<longrightarrow> soundscapePrimary new = v)
        \<and> (soundscapePrimary s = None \<longrightarrow> soundscapePrimary new = soundscapePrimary prev))
    \<and> ((\<forall>v. soundscapeSecondary s = Some v \<longrightarrow> soundscapeSecondary new = v)
        \<and> (soundscapeSecondary s = None \<longrightarrow> soundscapeSecondary new = soundscapeSecondary prev))
    \<and> ((\<forall>v. soundscapeQuality s = Some v \<longrightarrow> soundscapeQuality new = v)
        \<and> (soundscapeQuality s = None \<longrightarrow> soundscapeQuality new = soundscapeQuality prev))
    \<and> ((\<forall>v. visualEffects s = Some v \<longrightarrow> visualEffects new = v)
        \<and> (visualEffects s = None \<longrightarrow> visualEffects new = visualEffects prev))
    \<and> (preset \<in> set PRESETS \<longrightarrow> idea s = None \<and> idea new = idea prev)"
  by (simp add: Let_def handleApplyPreset_def applySettings_def presets_leave_idea)

theorem preset_overwrites_named_fields_witness:
  "PRESETS ! 0 \<in> set PRESETS
   \<and> name (PRESETS ! 0) = js ''Forest Rain''
   \<and> formState (handleApplyPreset (PRESETS ! 0)
        (handleInputChange (js ''forest rain at night'') (initialApp None)))
     = \<lparr>idea = js ''forest rain at night'',
        moods = [js ''Calm'', js ''Melancholy''],
        cameraMovement = js ''Slow Zoom In'',
        cameraAngle = js ''Low Angle'',
        cameraFocus = js ''Soft Focus'',
        soundscapePrimary = js ''Rain'',
        soundscapeSecondary = [js ''Thunder'', js ''Wind''],
        soundscapeQuality = js ''High-Fidelity (Binaural)'',
        visualEffects = [js ''Fog'', js ''Muted Tones'']\<rparr>"
  using preset_overwrites_named_fields [where preset = "PRESETS ! 0"
          and st = "handleInputChange (js ''forest rain at night'') (initialApp None)"]
  by (simp add: Let_def PRESETS_def handleApplyPreset_def applySettings_def
        handleInputChange_def initialApp_def initialState_def)

section \<open>The invariant of the form state\<close>

lemma formInvariant_initialState: "formInvariant initialState"
  by (simp add: formInvariant_def initialState_def CAMERA_MOVEMENTS_def CAMERA_ANGLES_def
        CAMERA_FOCUS_def PRIMARY_SOUNDS_def SOUND_QUALITIES_def)

lemma distinct_newSelection: "distinct xs \<Longrightarrow> distinct (newSelection item xs)"
  by (simp add: newSelection_def)

lemma formInvariant_toggle:
  "formInvariant fs \<Longrightarrow> formInvariant (setField field (newSelection item (getField field fs)) fs)"
  by (cases field) (simp_all add: formInvariant_def distinct_newSelection)

lemma formInvariant_preset:
  assumes "preset \<in> set PRESETS"
  shows "formInvariant (applySettings fs (settings preset))"
proof -
  from assms consider "preset = PRESETS ! 0" | "preset = PRESETS ! 1" | "preset = PRESETS ! 2"
    | "preset = PRESETS ! 3"
    by (auto simp: PRESETS_def)
  then show ?thesis
  proof cases
    case 1
    then show ?thesis
      by (simp add: PRESETS_def applySettings_def formInvariant_def CAMERA_MOVEMENTS_def
            CAMERA_ANGLES_def CAMERA_FOCUS_def PRIMARY_SOUNDS_def SOUND_QUALITIES_def js_def)
  next
    case 2
    then show ?thesis
      by (simp add: PRESETS_def applySettings_def formInvariant_def CAMERA_MOVEMENTS_def
            CAMERA_ANGLES_def CAMERA_FOCUS_def PRIMARY_SOUNDS_def SOUND_QUALITIES_def js_def)
  next
    case 3
    then show ?thesis
      by (simp add: PRESETS_def applySettings_def formInvariant_def CAMERA_MOVEMENTS_def
            CAMERA_ANGLES_def CAMERA_FOCUS_def PRIMARY_SOUNDS_def SOUND_QUALITIES_def js_def)
  next
    case 4
    then show ?thesis
      by (simp add: PRESETS_def applySettings_def formInvariant_def CAMERA_MOVEMENTS_def
            CAMERA_ANGLES_def CAMERA_FOCUS_def PRIMARY_SOUNDS_def SOUND_QUALITIES_def js_def)
  qed
qed

lemma formInvariant_handle:
  "formInvariant (formState st) \<Longrightarrow> offered st e \<Longrightarrow> formInvariant (formState (handle lc e st))"
proof (cases e)
  case (ToggleMultiSelect item field)
  assume "formInvariant (formState st)"
  with ToggleMultiSelect show ?thesis
    by (simp add: toggleMultiSelect_def formInvariant_toggle)
next
  case (ApplyPreset preset)
  assume "offered st e"
  with ApplyPreset show ?thesis
    by (simp add: handleApplyPreset_def formInvariant_preset)
next
  case Reset
  then show ?thesis by (simp add: handleReset_def formInvariant_initialState)
qed (simp_all add: formInvariant_def handleInputChange_def selectCameraMovement_def
       selectCameraAngle_def selectCameraFocus_def selectSoundscapePrimary_def
       selectSoundscapeQuality_def handleGenerateJson_def handleCopyJson_def copyFulfilled_def
       copyTimeout_def handleDownloadJson_def handleSelfTest_def handleSetTheme_def
       split: option.splits)

lemma reachable_formInvariant: "reachable lc st \<Longrightarrow> formInvariant (formState st)"
proof (induction rule: reachable.induct)
  case (start stored)
  show ?case by (simp add: initialApp_def formInvariant_initialState)
next
  case (step st e)
  then show ?case by (simp add: formInvariant_handle)
qed

text \<open>
  Claim C6. In every state reachable from the initial one by the events of the page, each
  of the five single-valued fields with an option list holds an entry of its list, and none
  of the three multi-valued fields holds an entry twice.
\<close>

theorem reachable_fields_valid:
  "reachable lc st \<Longrightarrow>
     cameraMovement (formState st) \<in> set CAMERA_MOVEMENTS
     \<and> cameraAngle (formState st) \<in> set CAMERA_ANGLES
     \<and> cameraFocus (formState st) \<in> set CAMERA_FOCUS
     \<and> soundscapePrimary (formState st) \<in> set PRIMARY_SOUNDS
     \<and> soundscapeQuality (formState st) \<in> set SOUND_QUALITIES
     \<and> distinct (moods (formState st))
     \<and> distinct (soundscapeSecondary (formState st))
     \<and> distinct (visualEffects (formState st))"
  using reachable_formInvariant [of lc st] by (simp add: formInvariant_def)

theorem reachable_fields_valid_witness:
  "reachable id (handle id (ToggleMultiSelect (js ''Fog'') VisualEffects)
      (handle id (ApplyPreset (PRESETS ! 0)) (initialApp None)))
   \<and> cameraMovement (formState (handle id (ToggleMultiSelect (js ''Fog'') VisualEffects)
        (handle id (ApplyPreset (PRESETS ! 0)) (initialApp None)))) \<in> set CAMERA_MOVEMENTS
   \<and> distinct (visualEffects (formState (handle id (ToggleMultiSelect (js ''Fog'') VisualEffects)
        (handle id (ApplyPreset (PRESETS ! 0)) (initialApp None)))))
   \<and> visualEffects (formState (handle id (ToggleMultiSelect (js ''Fog'') VisualEffects)
        (handle id (ApplyPreset (PRESETS ! 0)) (initialApp None)))) = [js ''Muted Tones'']"
proof -
  have r0: "reachable id (initialApp None)" by (rule reachable.start)
  have r1: "reachable id (handle id (ApplyPreset (PRESETS ! 0)) (initialApp None))"
    by (rule reachable.step [OF r0]) (simp add: PRESETS_def)
  have r2: "reachable id (handle id (ToggleMultiSelect (js ''Fog'') VisualEffects)
      (handle id (ApplyPreset (PRESETS ! 0)) (initialApp None)))"
    by (rule reachable.step [OF r1]) (simp add: VISUAL_EFFECTS_def)
  have v: "visualEffects (formState (handle id (ToggleMultiSelect (js ''Fog'') VisualEffects)
        (handle id (ApplyPreset (PRESETS ! 0)) (initialApp None)))) = [js ''Muted Tones'']"
    by (simp add: app_defs)
  from reachable_fields_valid [OF r2] r2 v show ?thesis by blast
qed

section \<open>The file name of a download\<close>

declare runs.simps(2) [simp del]

text \<open>
  The runs of a string are its pieces in order; every run is not empty and is either white
  space only or free of white space; and of two neighbouring runs one is white space and the
  other is not, so that every run is maximal.
\<close>

lemma concat_runs: "concat (runs s) = s"
  by (induction s rule: runs.induct) (simp_all add: runs.simps(2))

lemma runs_uniform:
  "r \<in> set (runs s) \<Longrightarrow>
     r \<noteq> [] \<and> ((\<forall>d\<in>set r. isWhiteSpace d) \<or> (\<forall>d\<in>set r. \<not> isWhiteSpace d))"
proof (induction s rule: runs.induct)
  case 1
  then show ?case by simp
next
  case (2 c cs)
  let ?P = "\<lambda>d. isWhiteSpace d = isWhiteSpace c"
  from "2.prems" consider "r = c # takeWhile ?P cs" | "r \<in> set (runs (dropWhile ?P cs))"
    by (auto simp: runs.simps(2))
  then show ?case
  proof cases
    case 1
    have tw: "\<And>d. d \<in> set (takeWhile ?P cs) \<Longrightarrow> ?P d" by (rule set_takeWhileD [THEN conjunct2])
    from 1 have s: "set r = insert c (set (takeWhile ?P cs))" and n: "r \<noteq> []" by simp_all
    show ?thesis
    proof (cases "isWhiteSpace c")
      case True
      with tw have "\<forall>d\<in>set r. isWhiteSpace d" unfolding s by blast
      with n show ?thesis by blast
    next
      case False
      with tw have "\<forall>d\<in>set r. \<not> isWhiteSpace d" unfolding s by blast
      with n show ?thesis by blast
    qed
  next
    case 2
    then show ?thesis by (rule "2.IH")
  qed
qed

lemma runs_maximal:
  "runs s = p @ r1 # r2 # q \<Longrightarrow> isWhiteSpace (hd r1) \<noteq> isWhiteSpace (hd r2)"
proof (induction s arbitrary: p rule: runs.induct)
  case 1
  then show ?case by simp
next
  case (2 c cs)
  let ?P = "\<lambda>d. isWhiteSpace d = isWhiteSpace c"
  show ?case
  proof (cases p)
    case Nil
    with "2.prems" have r1: "hd r1 = c" and rest: "runs (dropWhile ?P cs) = r2 # q"
      by (auto simp: runs.simps(2))
    from rest obtain d ds where d: "dropWhile ?P cs = d # ds" by (cases "dropWhile ?P cs") auto
    with rest have r2: "hd r2 = d" by (auto simp: runs.simps(2))
    from d have "dropWhile ?P cs \<noteq> []" by simp
    then have "\<not> ?P (hd (dropWhile ?P cs))" by (rule hd_dropWhile)
    with d have "isWhiteSpace d \<noteq> isWhiteSpace c" by simp
    then show ?thesis unfolding r1 r2 by blast
  next
    case (Cons a p')
    with "2.prems" have "runs (dropWhile ?P cs) = p' @ r1 # r2 # q" by (simp add: runs.simps(2))
    then show ?thesis by (rule "2.IH")
  qed
qed

text \<open>The replacement of the source puts one underscore in the place of every run of white space.\<close>

lemma replaceWhiteSpace_plain:
  "\<forall>d\<in>set xs. \<not> isWhiteSpace d \<Longrightarrow> replaceWhiteSpace (xs @ ys) = xs @ replaceWhiteSpace ys"
  by (induction xs) simp_all

lemma replaceWhiteSpace_underscored: "replaceWhiteSpace s = underscored s"
proof (induction s rule: runs.induct)
  case 1
  show ?case by (simp add: underscored_def)
next
  case (2 c cs)
  let ?P = "\<lambda>d. isWhiteSpace d = isWhiteSpace c"
  have u: "underscored (c # cs) =
      (if list_ex isWhiteSpace (c # takeWhile ?P cs) then [0x5F] else c # takeWhile ?P cs)
        @ underscored (dropWhile ?P cs)"
    by (simp add: underscored_def runs.simps(2))
  show ?case
  proof (cases "isWhiteSpace c")
    case True
    then have "?P = isWhiteSpace" by auto
    with True u "2.IH" show ?thesis by simp
  next
    case False
    then have P: "?P = (\<lambda>d. \<not> isWhiteSpace d)" by auto
    have "\<not> list_ex isWhiteSpace (c # takeWhile ?P cs)"
      using False by (auto simp: list_ex_iff P dest: set_takeWhileD)
    with u have u': "underscored (c # cs) = c # takeWhile ?P cs @ underscored (dropWhile ?P cs)"
      by (simp only: if_False append_Cons)
    have "replaceWhiteSpace (c # cs) = c # replaceWhiteSpace (takeWhile ?P cs @ dropWhile ?P cs)"
      using False by simp
    also have "\<dots> = c # takeWhile ?P cs @ replaceWhiteSpace (dropWhile ?P cs)"
      by (subst replaceWhiteSpace_plain) (auto simp: P dest: set_takeWhileD)
    finally show ?thesis using u' "2.IH" by simp
  qed
qed

lemma replaceWhiteSpace_Nil: "replaceWhiteSpace s = [] \<longleftrightarrow> s = []"
  by (cases s) simp_all

lemma underscore_no_space: "\<not> isWhiteSpace 0x5F"
  by (simp add: isWhiteSpace_def)

lemma replaceWhiteSpace_no_space: "x \<in> set (replaceWhiteSpace s) \<Longrightarrow> \<not> isWhiteSpace x"
proof (induction s rule: replaceWhiteSpace.induct)
  case 1
  then show ?case by simp
next
  case (2 c cs)
  show ?case
  proof (cases "isWhiteSpace c")
    case True
    with "2.prems" have "x = 0x5F \<or> x \<in> set (replaceWhiteSpace (dropWhile isWhiteSpace cs))"
      by simp
    then show ?thesis using "2.IH"(1) [OF True] underscore_no_space by blast
  next
    case False
    with "2.prems" have "x = c \<or> x \<in> set (replaceWhiteSpace cs)" by simp
    then show ?thesis using "2.IH"(2) [OF False] False by blast
  qed
qed

text \<open>
  \<open>trim\<close> takes white space away at the two ends and nothing else: what is left neither
  begins nor ends with white space, so every run of white space in it has a character before
  it and a character after it.
\<close>

lemma trim_decomposition:
  "\<exists>a b. s = a @ trim s @ b \<and> (\<forall>c\<in>set a. isWhiteSpace c) \<and> (\<forall>c\<in>set b. isWhiteSpace c)"
proof -
  let ?m = "dropWhile isWhiteSpace s"
  have 1: "s = takeWhile isWhiteSpace s @ ?m" by simp
  have 2: "rev ?m = takeWhile isWhiteSpace (rev ?m) @ dropWhile isWhiteSpace (rev ?m)" by simp
  then have "?m = rev (dropWhile isWhiteSpace (rev ?m)) @ rev (takeWhile isWhiteSpace (rev ?m))"
    by (metis rev_append rev_rev_ident)
  then have "s = takeWhile isWhiteSpace s @ trim s @ rev (takeWhile isWhiteSpace (rev ?m))"
    using 1 by (simp add: trim_def)
  moreover have "\<forall>c\<in>set (takeWhile isWhiteSpace s). isWhiteSpace c"
    by (auto dest: set_takeWhileD)
  moreover have "\<forall>c\<in>set (rev (takeWhile isWhiteSpace (rev ?m))). isWhiteSpace c"
    by (auto dest: set_takeWhileD)
  ultimately show ?thesis by blast
qed

lemma last_dropWhile: "dropWhile P xs \<noteq> [] \<Longrightarrow> last (dropWhile P xs) = last xs"
proof -
  assume n: "dropWhile P xs \<noteq> []"
  have "last xs = last (takeWhile P xs @ dropWhile P xs)" by simp
  also have "\<dots> = last (dropWhile P xs)" using n by (rule last_appendR)
  finally show ?thesis by simp
qed

lemma trim_ends:
  assumes "trim s \<noteq> []"
  shows "\<not> isWhiteSpace (hd (trim s)) \<and> \<not> isWhiteSpace (last (trim s))"
proof -
  define m where "m = dropWhile isWhiteSpace s"
  define t where "t = dropWhile isWhiteSpace (rev m)"
  have tr: "trim s = rev t" by (simp add: trim_def m_def t_def)
  with assms have t: "t \<noteq> []" by simp
  then have t': "dropWhile isWhiteSpace (rev m) \<noteq> []" unfolding t_def .
  then have "\<not> isWhiteSpace (hd (dropWhile isWhiteSpace (rev m)))" by (rule hd_dropWhile)
  then have "\<not> isWhiteSpace (hd t)" unfolding t_def .
  with t have l: "\<not> isWhiteSpace (last (trim s))" by (simp add: tr last_rev)
  have m: "m \<noteq> []"
  proof
    assume e: "m = []"
    have "t = []" unfolding t_def e by simp
    with t show False ..
  qed
  then have m': "dropWhile isWhiteSpace s \<noteq> []" unfolding m_def .
  then have "\<not> isWhiteSpace (hd (dropWhile isWhiteSpace s))" by (rule hd_dropWhile)
  then have hm: "\<not> isWhiteSpace (hd m)" unfolding m_def .
  have "last t = last (rev m)" unfolding t_def using t' by (rule last_dropWhile)
  also have "\<dots> = hd m" using m by (simp add: last_rev)
  finally have "last t = hd m" .
  moreover have "hd (rev t) = last t" using t by (simp add: hd_rev)
  ultimately have "\<not> isWhiteSpace (hd (trim s))" using hm by (simp add: tr)
  with l show ?thesis by blast
qed

text \<open>
  Claim C8. The download is named after the idea: the idea without the white space at its
  two ends, in lower case, every run of white space in it replaced by one underscore,
  followed by \<open>.json\<close>; and \<open>prompt.json\<close> when the idea is empty after trimming. What is
  used of \<open>toLowerCase\<close> is that it gives the empty string on the empty string only.
\<close>

theorem download_file_name:
  assumes "\<And>s. toLowerCase s = [] \<longleftrightarrow> s = []"
    and "generatedJson st = Some g" and "g \<noteq> []"
  shows "handleDownloadJson toLowerCase st =
      st\<lparr>effects := effects st @
        [Download
           (if trim (idea (formState st)) = [] then js ''prompt.json''
            else underscored (toLowerCase (trim (idea (formState st)))) @ js ''.json'')
           g]\<rparr>"
  using assms
  by (simp add: handleDownloadJson_def fileName_def replaceWhiteSpace_Nil
        replaceWhiteSpace_underscored [symmetric] js_def)

lemma asciiLower_Nil: "asciiLower s = [] \<longleftrightarrow> s = []"
  by (simp add: asciiLower_def)

theorem download_file_name_witness:
  "effects (handleDownloadJson asciiLower
      (handleGenerateJson (handleInputChange (js ''  Forest  Rain at Night '') (initialApp None))))
     = [Download (js ''forest_rain_at_night.json'')
          (JSON_stringify (jsonObject (formState
             (handleInputChange (js ''  Forest  Rain at Night '') (initialApp None)))) 2)]
   \<and> effects (handleDownloadJson asciiLower
      (handleGenerateJson (handleInputChange (js ''   '') (initialApp None))))
     = [Download (js ''prompt.json'')
          (JSON_stringify (jsonObject (formState
             (handleInputChange (js ''   '') (initialApp None)))) 2)]"
proof -
  let ?a = "handleGenerateJson (handleInputChange (js ''  Forest  Rain at Night '') (initialApp None))"
  let ?b = "handleGenerateJson (handleInputChange (js ''   '') (initialApp None))"
  have ga: "generatedJson ?a = Some (JSON_stringify (jsonObject (formState
             (handleInputChange (js ''  Forest  Rain at Night '') (initialApp None)))) 2)"
    by (simp add: handleGenerateJson_def)
  have gb: "generatedJson ?b = Some (JSON_stringify (jsonObject (formState
             (handleInputChange (js ''   '') (initialApp None)))) 2)"
    by (simp add: handleGenerateJson_def)
  have ia: "idea (formState ?a) = js ''  Forest  Rain at Night ''"
    by (simp add: handleGenerateJson_def handleInputChange_def)
  have ib: "idea (formState ?b) = js ''   ''"
    by (simp add: handleGenerateJson_def handleInputChange_def)
  have ta: "trim (js ''  Forest  Rain at Night '') = js ''Forest  Rain at Night''"
    by (simp add: trim_def js_def isWhiteSpace_def)
  have tb: "trim (js ''   '') = []"
    by (simp add: trim_def js_def isWhiteSpace_def)
  have la: "asciiLower (js ''Forest  Rain at Night'') = js ''forest  rain at night''"
    by (simp add: asciiLower_def js_def)
  have ua: "underscored (js ''forest  rain at night'') = js ''forest_rain_at_night''"
    by (simp add: replaceWhiteSpace_underscored [symmetric] js_def isWhiteSpace_def)
  have ea: "effects ?a = []" and eb: "effects ?b = []"
    by (simp_all add: handleGenerateJson_def handleInputChange_def initialApp_def)
  note a = download_file_name [of asciiLower ?a, OF asciiLower_Nil ga
      JSON_stringify_not_empty [OF plain_jsonObject]]
  note b = download_file_name [of asciiLower ?b, OF asciiLower_Nil gb
      JSON_stringify_not_empty [OF plain_jsonObject]]
  have "js ''forest_rain_at_night'' @ js ''.json'' = js ''forest_rain_at_night.json''"
    by (simp add: js_def)
  with a b ea eb show ?thesis
    unfolding ia ib ta tb la ua by (simp add: js_def)
qed

end
